theory Spec2Isabelle
  imports Main "HOL-Library.Sublist"
begin

section \<open>Python values\<close>

text \<open>
  The configuration interface of Ninju is dynamically typed: the arguments \<^verbatim>\<open>outputs\<close>,
  \<^verbatim>\<open>target\<close>, \<^verbatim>\<open>pool\<close>, \<^verbatim>\<open>inputs\<close> and the arguments of \<^verbatim>\<open>files\<close> are
  inspected with \<^verbatim>\<open>isinstance\<close>, \<^verbatim>\<open>type\<close>, truthiness and \<^verbatim>\<open>== None\<close>.
  The values the code distinguishes are the constructors below.  \<^verbatim>\<open>PFiles\<close> is an
  instance of the class \<^verbatim>\<open>_Files\<close> (its field \<^verbatim>\<open>files\<close>), \<^verbatim>\<open>PTarget\<close> an
  instance of \<^verbatim>\<open>_Target\<close> (its field \<^verbatim>\<open>target\<close>).
\<close>

datatype pyval =
    PNone
  | PBool bool
  | PInt int
  | PStr string
  | PList "pyval list"
  | PTuple "pyval list"
  | PDict "(pyval \<times> pyval) list"
  | PFiles "pyval list"
  | PTarget pyval

text \<open>Truthiness (\<^verbatim>\<open>not x\<close> is its negation).  The classes \<^verbatim>\<open>_Files\<close> and
  \<^verbatim>\<open>_Target\<close> define neither \<^verbatim>\<open>__bool__\<close> nor \<^verbatim>\<open>__len__\<close>, so their instances
  are always true.\<close>

fun truthy :: "pyval \<Rightarrow> bool" where
  "truthy PNone = False"
| "truthy (PBool b) = b"
| "truthy (PInt i) = (i \<noteq> 0)"
| "truthy (PStr s) = (s \<noteq> [])"
| "truthy (PList xs) = (xs \<noteq> [])"
| "truthy (PTuple xs) = (xs \<noteq> [])"
| "truthy (PDict kvs) = (kvs \<noteq> [])"
| "truthy (PFiles fs) = True"
| "truthy (PTarget t) = True"

text \<open>\<^verbatim>\<open>isinstance(x, int)\<close>: \<^verbatim>\<open>bool\<close> is a subclass of \<^verbatim>\<open>int\<close>.\<close>

fun is_int :: "pyval \<Rightarrow> bool" where
  "is_int (PInt i) = True"
| "is_int (PBool b) = True"
| "is_int v = False"

fun int_of :: "pyval \<Rightarrow> int" where
  "int_of (PInt i) = i"
| "int_of (PBool b) = (if b then 1 else 0)"
| "int_of v = 0"

subsection \<open>Formatting integers\<close>

definition digit_char :: "nat \<Rightarrow> char" where
  "digit_char d = ''0123456789'' ! d"

fun str_nat :: "nat \<Rightarrow> string" where
  "str_nat n = (if n < 10 then [digit_char n] else str_nat (n div 10) @ [digit_char (n mod 10)])"

declare str_nat.simps [simp del]

definition str_int :: "int \<Rightarrow> string" where
  "str_int i = (if i < 0 then CHR ''-'' # str_nat (nat (- i)) else str_nat (nat i))"

text \<open>\<^verbatim>\<open>'{}'.format(v)\<close> for the values that reach a format call with a known
  outcome: an \<^verbatim>\<open>int\<close> prints in decimal, a \<^verbatim>\<open>bool\<close> as its name.\<close>

fun format_int :: "pyval \<Rightarrow> string" where
  "format_int (PBool b) = (if b then ''True'' else ''False'')"
| "format_int v = str_int (int_of v)"

text \<open>The inverse of \<^const>\<open>str_nat\<close>, used to show that formatting is injective.\<close>

definition digit_val :: "char \<Rightarrow> nat" where
  "digit_val c = length (takeWhile (\<lambda>d. d \<noteq> c) ''0123456789'')"

definition nat_of_str :: "string \<Rightarrow> nat" where
  "nat_of_str s = foldl (\<lambda>a c. 10 * a + digit_val c) 0 s"

section \<open>Statements of the log\<close>

text \<open>The classes \<^verbatim>\<open>_NBuildRule\<close>, \<^verbatim>\<open>_NExecRule\<close> and
  \<^verbatim>\<open>_NBuild\<close> as records; the field names carry the class as a prefix because
  the classes share field names.\<close>

record NBuildRule =
  br_name :: string
  br_executable :: string
  br_args :: "string option"
  br_description :: "string option"
  br_depfile :: "string option"
  br_generator :: bool
  br_pool :: "string option"
  br_restat :: bool
  br_rspfile :: "string option"
  br_rspfile_content :: "string option"
  br_deps :: "string option"
  br_executable_path :: string

record NExecRule =
  er_name :: string
  er_executable :: string
  er_args :: "string option"
  er_description :: "string option"
  er_rspfile :: "string option"
  er_rspfile_content :: "string option"
  er_executable_path :: string

record NBuild =
  b_outputs :: "pyval list"
  b_rule :: string
  b_inputs :: pyval
  b_implicit :: pyval
  b_order_only :: pyval
  b_variables :: pyval
  b_implicit_outputs :: pyval

text \<open>The entries of \<^verbatim>\<open>Ninju._seq\<close>: \<^verbatim>\<open>_NVar(name, value, indent)\<close>,
  \<^verbatim>\<open>_NPool(name, depth)\<close>, the two rule classes, \<^verbatim>\<open>_NBuild\<close>,
  \<^verbatim>\<open>_NPhony(name, inputs)\<close> and \<^verbatim>\<open>_NDefault(targets)\<close>.\<close>

datatype stmt =
    NVar string pyval int
  | NPool string pyval
  | BuildRule NBuildRule
  | ExecRule NExecRule
  | Build NBuild
  | NPhony pyval pyval
  | NDefault pyval

datatype error = ConfigurationError | GeneratorError | AttributeError | TypeError | SystemExit

section \<open>The session\<close>

text \<open>The fields of a \<^verbatim>\<open>Ninju\<close> object.  \<^verbatim>\<open>_cmds\<close> and
  \<^verbatim>\<open>_exec_cmds\<close> hold closures over a rule object; the closure reads the rule's
  name and executable path only, so the maps hold the rule.\<close>

record ninju =
  build_file :: string
  build_dir :: string
  seq :: "stmt list"
  name_count :: int
  cmds :: "string \<rightharpoonup> NBuildRule"
  exec_cmds :: "string \<rightharpoonup> NExecRule"
  pools :: "string \<rightharpoonup> bool"
  module_file :: string
  root_dir :: string

text \<open>What the session reads from its host: \<^verbatim>\<open>shutil.which\<close>, the file of the
  calling module, the working directory and the paths of the two modules.\<close>

record host =
  which :: "string \<Rightarrow> string option"
  caller_file :: string
  getcwd :: string
  NINJU_MODULE_PATH :: string
  NINJA_SYNTAX_MODULE_PATH :: string

subsection \<open>Name generator\<close>

definition gen_name :: "string \<Rightarrow> ninju \<Rightarrow> string \<times> ninju" where
  "gen_name ext s =
     (let s' = s\<lparr>name_count := name_count s + 1\<rparr>
      in (''${builddir}'' @ (''/.ninju_'' @ str_int (name_count s') @ ''.'' @ ext), s'))"

subsection \<open>File references\<close>

text \<open>The loop of \<^verbatim>\<open>_Files.__init__\<close> over its arguments, with the list
  \<^verbatim>\<open>self.files\<close> built so far.\<close>

fun Files_loop :: "pyval list \<Rightarrow> pyval list \<Rightarrow> pyval list" where
  "Files_loop [] files = files"
| "Files_loop (f # fs) files =
     (case f of
        PNone \<Rightarrow> Files_loop fs files
      | PFiles xs \<Rightarrow> Files_loop fs (files @ xs)
      | PTarget t \<Rightarrow> Files_loop fs (files @ [t])
      | PList xs \<Rightarrow> Files_loop fs (files @ xs)
      | PTuple xs \<Rightarrow> Files_loop fs (files @ xs)
      | _ \<Rightarrow> Files_loop fs (files @ [f]))"

definition Files_init :: "pyval list \<Rightarrow> pyval" where
  "Files_init args = PFiles (Files_loop args [])"

subsection \<open>Output normalization\<close>

text \<open>\<^verbatim>\<open>as_list\<close> of the module \<^verbatim>\<open>ninja_syntax\<close>: \<^verbatim>\<open>None\<close> is the
  empty list, a list is itself, anything else is wrapped.\<close>

fun as_list :: "pyval \<Rightarrow> pyval list" where
  "as_list PNone = []"
| "as_list (PList xs) = xs"
| "as_list v = [v]"

text \<open>The loop \<^verbatim>\<open>for i in range(outputs): outs.append(gen_name(ext))\<close>, with the
  number of rounds left.\<close>

fun gen_loop :: "nat \<Rightarrow> string \<Rightarrow> pyval list \<Rightarrow> ninju \<Rightarrow> pyval list \<times> ninju" where
  "gen_loop 0 ext outs s = (outs, s)"
| "gen_loop (Suc k) ext outs s =
     (case gen_name ext s of (n, s') \<Rightarrow> gen_loop k ext (outs @ [PStr n]) s')"

definition normalize_outputs :: "pyval \<Rightarrow> string \<Rightarrow> ninju \<Rightarrow> pyval list \<times> ninju" where
  "normalize_outputs outputs ext s =
     (if \<not> truthy outputs then (case gen_name ext s of (n, s') \<Rightarrow> ([PStr n], s'))
      else if is_int outputs then gen_loop (nat (int_of outputs)) ext [] s
      else case outputs of
          PFiles fs \<Rightarrow> (fs, s)
        | PList xs \<Rightarrow> (xs, s)
        | _ \<Rightarrow> (as_list outputs, s))"

definition is_single_output :: "pyval \<Rightarrow> bool" where
  "is_single_output t =
     (\<not> ((case t of PFiles fs \<Rightarrow> length fs \<noteq> 1 | _ \<Rightarrow> False)
         \<or> ((case t of PList xs \<Rightarrow> length xs \<noteq> 1 | PTuple xs \<Rightarrow> length xs \<noteq> 1 | _ \<Rightarrow> False))))"

subsection \<open>Paths\<close>

text \<open>\<^verbatim>\<open>os.path.join\<close> and \<^verbatim>\<open>os.path.dirname\<close> of the POSIX path module.\<close>

fun join_loop :: "string \<Rightarrow> string list \<Rightarrow> string" where
  "join_loop path [] = path"
| "join_loop path (b # p) =
     join_loop (if take 1 b = ''/'' then b
                else if path = [] \<or> last path = CHR ''/'' then path @ b
                else path @ ''/'' @ b) p"

definition os_path_join :: "string \<Rightarrow> string list \<Rightarrow> string" where
  "os_path_join a p = join_loop a p"

definition os_path_dirname :: "string \<Rightarrow> string" where
  "os_path_dirname p =
     (let head = rev (dropWhile (\<lambda>c. c \<noteq> CHR ''/'') (rev p))
      in if head \<noteq> [] \<and> head \<noteq> replicate (length head) (CHR ''/'')
         then rev (dropWhile (\<lambda>c. c = CHR ''/'') (rev head)) else head)"

definition root :: "string list \<Rightarrow> pyval" where
  "root args = Files_init [PStr (os_path_join ''${root}'' args)]"

definition builddir :: "string list \<Rightarrow> pyval" where
  "builddir args = Files_init [PStr (os_path_join ''${builddir}'' args)]"

subsection \<open>Variables and pools\<close>

definition var :: "string \<Rightarrow> pyval \<Rightarrow> ninju \<Rightarrow> string \<times> ninju" where
  "var key val s = (''${'' @ key @ ''}'', s\<lparr>seq := seq s @ [NVar key val 0]\<rparr>)"

text \<open>\<^verbatim>\<open>Ninju.dir\<close>; the result is the path \<^verbatim>\<open>p\<close> that the returned
  closure joins its arguments to.\<close>

definition dir :: "string list \<Rightarrow> string option \<Rightarrow> ninju \<Rightarrow> string \<times> ninju" where
  "dir args v s =
     (let p = (if length args = 0 then ''${root}'' else os_path_join ''${root}'' args)
      in case v of
           None \<Rightarrow> (p, s)
         | Some k \<Rightarrow> if k = [] then (p, s) else var k (PStr p) s)"

definition setup_pool :: "pyval \<Rightarrow> ninju \<Rightarrow> error + (string option \<times> ninju)" where
  "setup_pool pool s =
     (if pool = PNone then Inr (None, s)
      else if is_int pool then
        (if int_of pool < 1 then Inl ConfigurationError
         else let pool_name = ''pool_'' @ format_int pool
              in if pools s pool_name = None
                 then Inr (Some pool_name,
                           s\<lparr>seq := seq s @ [NPool pool_name pool],
                             pools := (pools s)(pool_name \<mapsto> True)\<rparr>)
                 else Inr (Some pool_name, s))
      else if pool = PStr ''console'' then Inr (Some ''console'', s)
      else Inl ConfigurationError)"

subsection \<open>Rules and their bound commands\<close>

text \<open>The keyword arguments of \<^verbatim>\<open>Ninju.cmd\<close> and \<^verbatim>\<open>Ninju.exec_cmd\<close>.\<close>

record cmd_opts =
  o_args :: "string option"
  o_description :: "string option"
  o_depfile :: "string option"
  o_generator :: bool
  o_pool :: pyval
  o_restat :: bool
  o_rspfile :: "string option"
  o_rspfile_content :: "string option"
  o_deps :: "string option"

record exec_opts =
  x_args :: "string option"
  x_description :: "string option"
  x_rspfile :: "string option"
  x_rspfile_content :: "string option"

definition cmd_defaults :: cmd_opts where
  "cmd_defaults = \<lparr>o_args = None, o_description = None, o_depfile = None,
     o_generator = False, o_pool = PNone, o_restat = False, o_rspfile = None,
     o_rspfile_content = None, o_deps = None\<rparr>"

definition exec_defaults :: exec_opts where
  "exec_defaults = \<lparr>x_args = None, x_description = None, x_rspfile = None,
     x_rspfile_content = None\<rparr>"

text \<open>The constructors resolve the executable; when \<^verbatim>\<open>shutil.which\<close> finds
  nothing they warn and keep the name as the path (the warning changes no state).\<close>

definition resolve :: "host \<Rightarrow> string \<Rightarrow> string" where
  "resolve h executable = (case which h executable of None \<Rightarrow> executable | Some p \<Rightarrow> p)"

definition NBuildRule_init :: "host \<Rightarrow> string \<Rightarrow> string \<Rightarrow> cmd_opts \<Rightarrow> string option \<Rightarrow> NBuildRule" where
  "NBuildRule_init h name executable opts pool_name =
     \<lparr>br_name = name, br_executable = executable, br_args = o_args opts,
      br_description = o_description opts, br_depfile = o_depfile opts,
      br_generator = o_generator opts, br_pool = pool_name, br_restat = o_restat opts,
      br_rspfile = o_rspfile opts, br_rspfile_content = o_rspfile_content opts,
      br_deps = o_deps opts, br_executable_path = resolve h executable\<rparr>"

definition NExecRule_init :: "host \<Rightarrow> string \<Rightarrow> string \<Rightarrow> exec_opts \<Rightarrow> NExecRule" where
  "NExecRule_init h name executable opts =
     \<lparr>er_name = name, er_executable = executable, er_args = x_args opts,
      er_description = x_description opts, er_rspfile = x_rspfile opts,
      er_rspfile_content = x_rspfile_content opts,
      er_executable_path = resolve h executable\<rparr>"

definition cmd :: "host \<Rightarrow> string \<Rightarrow> string \<Rightarrow> cmd_opts \<Rightarrow> ninju \<Rightarrow> error + ninju" where
  "cmd h name executable opts s =
     (case setup_pool (o_pool opts) s of
        Inl e \<Rightarrow> Inl e
      | Inr (pool_name, s1) \<Rightarrow>
          (let v = NBuildRule_init h name executable opts pool_name
           in Inr (s1\<lparr>seq := seq s1 @ [BuildRule v], cmds := (cmds s1)(name \<mapsto> v)\<rparr>)))"

definition exec_cmd :: "host \<Rightarrow> string \<Rightarrow> string \<Rightarrow> exec_opts \<Rightarrow> ninju \<Rightarrow> ninju" where
  "exec_cmd h name executable opts s =
     (let v = NExecRule_init h name executable opts
      in s\<lparr>seq := seq s @ [ExecRule v], exec_cmds := (exec_cmds s)(name \<mapsto> v)\<rparr>)"

text \<open>The closure returned by \<^verbatim>\<open>_NBuildRule.build_fn\<close>, applied to its arguments
  \<^verbatim>\<open>(inputs, outputs, implicit, order_only, variables, implicit_outputs)\<close>.\<close>

definition build_fn ::
  "NBuildRule \<Rightarrow> pyval \<Rightarrow> pyval \<Rightarrow> pyval \<Rightarrow> pyval \<Rightarrow> pyval \<Rightarrow> pyval \<Rightarrow> ninju \<Rightarrow> pyval \<times> ninju" where
  "build_fn r inputs outputs implicit order_only variables implicit_outputs s =
     (case normalize_outputs outputs ''tmp'' s of (outs, s1) \<Rightarrow>
        (let b = \<lparr>b_outputs = outs, b_rule = br_name r, b_inputs = inputs,
                   b_implicit = Files_init [PStr (br_executable_path r), implicit],
                   b_order_only = order_only, b_variables = variables,
                   b_implicit_outputs = implicit_outputs\<rparr>
         in (Files_init outs, s1\<lparr>seq := seq s1 @ [Build b]\<rparr>)))"

text \<open>The closure returned by \<^verbatim>\<open>_NExecRule.exec_fn\<close>, applied to
  \<^verbatim>\<open>(target, inputs, variables)\<close>.\<close>

definition exec_fn ::
  "NExecRule \<Rightarrow> pyval \<Rightarrow> pyval \<Rightarrow> pyval \<Rightarrow> ninju \<Rightarrow> error + (pyval \<times> ninju)" where
  "exec_fn r target inputs variables s =
     (if \<not> is_single_output target then Inl ConfigurationError
      else case normalize_outputs target ''tmp'' s of (outs, s1) \<Rightarrow>
        (let b = \<lparr>b_outputs = outs, b_rule = er_name r, b_inputs = inputs,
                   b_implicit = PNone, b_order_only = PNone, b_variables = variables,
                   b_implicit_outputs = PNone\<rparr>
         in Inr (Files_init [target], s1\<lparr>seq := seq s1 @ [Build b]\<rparr>)))"

text \<open>\<^verbatim>\<open>_Files.__getattr__\<close>: a registered build command called as a method of a
  file reference whose tokens are \<^verbatim>\<open>p\<close>; and \<^verbatim>\<open>_Target.__getattr__\<close>: a
  registered exec command called as a method of the target \<^verbatim>\<open>t\<close>.\<close>

definition Files_getattr ::
  "pyval list \<Rightarrow> string \<Rightarrow> pyval \<Rightarrow> pyval \<Rightarrow> pyval \<Rightarrow> pyval \<Rightarrow> pyval \<Rightarrow> ninju \<Rightarrow> error + (pyval \<times> ninju)" where
  "Files_getattr p name outputs implicit order_only variables implicit_outputs s =
     (case cmds s name of
        None \<Rightarrow> Inl AttributeError
      | Some r \<Rightarrow> Inr (build_fn r (PList p) outputs implicit order_only variables implicit_outputs s))"

definition Target_getattr ::
  "pyval \<Rightarrow> string \<Rightarrow> pyval \<Rightarrow> pyval \<Rightarrow> ninju \<Rightarrow> error + (pyval \<times> ninju)" where
  "Target_getattr t name inputs variables s =
     (case exec_cmds s name of
        None \<Rightarrow> Inl AttributeError
      | Some r \<Rightarrow> exec_fn r t inputs variables s)"

definition phony :: "pyval \<Rightarrow> pyval \<Rightarrow> ninju \<Rightarrow> ninju" where
  "phony t inputs s = s\<lparr>seq := seq s @ [NPhony t (Files_init [inputs])]\<rparr>"

definition default :: "pyval list \<Rightarrow> ninju \<Rightarrow> ninju" where
  "default targets s = s\<lparr>seq := seq s @ [NDefault (Files_init targets)]\<rparr>"

subsection \<open>Session bootstrap\<close>

definition NINJA_REQUIRED_VERSION :: string where
  "NINJA_REQUIRED_VERSION = ''1.7''"

definition Ninju_init :: "host \<Rightarrow> string \<Rightarrow> string \<Rightarrow> bool \<Rightarrow> error + ninju" where
  "Ninju_init h bf bd no_cwd_check =
     (let s0 = \<lparr>build_file = bf, build_dir = bd, seq = [], name_count = 0,
                 cmds = Map.empty, exec_cmds = Map.empty, pools = Map.empty,
                 module_file = caller_file h,
                 root_dir = os_path_dirname (caller_file h)\<rparr>
      in if \<not> no_cwd_check \<and> root_dir s0 \<noteq> getcwd h then Inl SystemExit
         else
           let s1 = snd (var ''ninja_required_version'' (PStr NINJA_REQUIRED_VERSION) s0);
               s2 = snd (var ''root'' (PStr ''.'') s1);
               s3 = snd (var ''builddir'' (PStr (os_path_join ''${root}'' [build_dir s2])) s2)
           in case cmd h ''configure'' (module_file s3)
                     (cmd_defaults\<lparr>o_description := Some ''Regenerate ninja build file'',
                                   o_generator := True\<rparr>) s3 of
                Inl e \<Rightarrow> Inl e
              | Inr s4 \<Rightarrow>
                  (case Files_getattr [] ''configure'' (root [build_file s4])
                          (PList [PStr (NINJU_MODULE_PATH h), PStr (NINJA_SYNTAX_MODULE_PATH h)])
                          PNone PNone PNone s4 of
                     Inl e \<Rightarrow> Inl e
                   | Inr (r, s5) \<Rightarrow> Inr s5))"

section \<open>Generation\<close>

text \<open>The calls the statement emitter \<^verbatim>\<open>ninja_syntax.Writer\<close> receives, with
  their arguments: \<^verbatim>\<open>comment\<close>, \<^verbatim>\<open>newline\<close>, \<^verbatim>\<open>variable(key, value, indent)\<close>,
  \<^verbatim>\<open>pool(name, depth)\<close>,
  \<^verbatim>\<open>rule(name, command, description, depfile, generator, pool, restat, rspfile, rspfile_content, deps)\<close>,
  \<^verbatim>\<open>build(outputs, rule, inputs, implicit, order_only, variables, implicit_outputs)\<close>
  and \<^verbatim>\<open>default(paths)\<close>.\<close>

datatype emit =
    WComment string
  | WNewline
  | WVariable string pyval int
  | WPool string pyval
  | WRule string string "string option" "string option" bool "string option" bool
      "string option" "string option" "string option"
  | WBuild pyval string "string list option" "string list option" "string list option" pyval
      "string list option"
  | WDefault "string list"

text \<open>Iteration \<^verbatim>\<open>for o in t\<close>: lists, tuples and file references give their
  elements, a string its characters, a dictionary its keys; the other values are not
  iterable.\<close>

fun py_iter :: "pyval \<Rightarrow> error + pyval list" where
  "py_iter (PList xs) = Inr xs"
| "py_iter (PTuple xs) = Inr xs"
| "py_iter (PFiles xs) = Inr xs"
| "py_iter (PStr s) = Inr (map (\<lambda>c. PStr [c]) s)"
| "py_iter (PDict kvs) = Inr (map fst kvs)"
| "py_iter v = Inl TypeError"

text \<open>The built-in \<^verbatim>\<open>str\<close> is a parameter \<^verbatim>\<open>str\<close> of the functions below.\<close>

definition as_string_list :: "(pyval \<Rightarrow> string) \<Rightarrow> pyval \<Rightarrow> error + string list option" where
  "as_string_list str t =
     (if t = PNone then Inr None
      else case py_iter t of Inl e \<Rightarrow> Inl e | Inr xs \<Rightarrow> Inr (Some (map str xs)))"

definition rule_command :: "string \<Rightarrow> string option \<Rightarrow> string" where
  "rule_command executable_path args =
     (case args of None \<Rightarrow> executable_path | Some a \<Rightarrow> executable_path @ '' '' @ a)"

definition NBuild_write :: "(pyval \<Rightarrow> string) \<Rightarrow> NBuild \<Rightarrow> error + emit" where
  "NBuild_write str b =
     (if b_outputs b = [] then Inl GeneratorError
      else
        let outs = map str (b_outputs b)
        in case as_string_list str (b_inputs b) of Inl e \<Rightarrow> Inl e | Inr ins \<Rightarrow>
           (case as_string_list str (b_implicit b) of Inl e \<Rightarrow> Inl e | Inr imp \<Rightarrow>
           (case as_string_list str (b_order_only b) of Inl e \<Rightarrow> Inl e | Inr oo \<Rightarrow>
           (case as_string_list str (b_implicit_outputs b) of Inl e \<Rightarrow> Inl e | Inr io \<Rightarrow>
              Inr (WBuild (PList (map PStr outs)) (b_rule b) ins imp oo (b_variables b) io)))))"

text \<open>The method \<^verbatim>\<open>write\<close> of each statement class.\<close>

fun stmt_write ::"(pyval \<Rightarrow> string) \<Rightarrow> stmt \<Rightarrow> error + emit" where
  "stmt_write str (NVar name val indent) = Inr (WVariable name val indent)"
| "stmt_write str (NPool name depth) = Inr (WPool name depth)"
| "stmt_write str (BuildRule r) =
     Inr (WRule (br_name r) (rule_command (br_executable_path r) (br_args r))
            (br_description r) (br_depfile r) (br_generator r) (br_pool r) (br_restat r)
            (br_rspfile r) (br_rspfile_content r) (br_deps r))"
| "stmt_write str (ExecRule r) =
     Inr (WRule (er_name r) (rule_command (er_executable_path r) (er_args r))
            (er_description r) None False (Some ''console'') False
            (er_rspfile r) (er_rspfile_content r) None)"
| "stmt_write str (Build b) = NBuild_write str b"
| "stmt_write str (NPhony name inputs) =
     (case py_iter inputs of
        Inl e \<Rightarrow> Inl e
      | Inr xs \<Rightarrow> Inr (WBuild name ''phony'' (Some (map str xs)) None None PNone None))"
| "stmt_write str (NDefault targets) =
     (case py_iter targets of
        Inl e \<Rightarrow> Inl e
      | Inr xs \<Rightarrow> Inr (WDefault (map str xs)))"

text \<open>The loop of \<^verbatim>\<open>Ninju._generate\<close> over \<^verbatim>\<open>self._seq\<close>, with the calls the
  writer has received so far.  An exception of a \<^verbatim>\<open>write\<close> ends the loop; what
  the writer received before stays written.\<close>

fun generate_loop :: "(pyval \<Rightarrow> string) \<Rightarrow> bool \<Rightarrow> stmt list \<Rightarrow> emit list \<Rightarrow> emit list \<times> error option" where
  "generate_loop str newline [] w = (w, None)"
| "generate_loop str newline (task # tasks) w =
     (case stmt_write str task of
        Inl e \<Rightarrow> (w, Some e)
      | Inr c \<Rightarrow> generate_loop str newline tasks (if newline then w @ [c, WNewline] else w @ [c]))"

definition header_comment :: string where
  "header_comment =''This file is generated by Ninju v0.1.0 (https://github.com/frm-adiputra/Ninju)''"

definition generate :: "(pyval \<Rightarrow> string) \<Rightarrow> bool \<Rightarrow> ninju \<Rightarrow> emit list \<times> error option" where
  "generate str newline s = generate_loop str newline (seq s) [WComment header_comment, WNewline]"

section \<open>Sequences of configuration calls\<close>

text \<open>The calls of client code that reach the session: the methods of \<^verbatim>\<open>Ninju\<close>
  that change it, and the methods of file and target references.  \<^verbatim>\<open>CallFiles p name\<close>
  is the call \<^verbatim>\<open>f.name(...)\<close> on a file reference with the tokens \<^verbatim>\<open>p\<close>, and
  \<^verbatim>\<open>CallTarget t name\<close> the call \<^verbatim>\<open>x.name(...)\<close> on the target \<^verbatim>\<open>t\<close>, for a
  name that the attribute lookup hands to \<^verbatim>\<open>__getattr__\<close> (a name that is not an
  attribute of the object itself).\<close>

datatype call =
    CallVar string pyval
  | CallDir "string list" "string option"
  | CallCmd string string cmd_opts
  | CallExecCmd string string exec_opts
  | CallFiles "pyval list" string pyval pyval pyval pyval pyval
  | CallTarget pyval string pyval pyval
  | CallPhony pyval pyval
  | CallDefault "pyval list"
  | CallGenName string

fun run_call :: "host \<Rightarrow> call \<Rightarrow> ninju \<Rightarrow> error + ninju" where
  "run_call h (CallVar key val) s = Inr (snd (var key val s))"
| "run_call h (CallDir args v) s = Inr (snd (dir args v s))"
| "run_call h (CallCmd name executable opts) s = cmd h name executable opts s"
| "run_call h (CallExecCmd name executable opts) s = Inr (exec_cmd h name executable opts s)"
| "run_call h (CallFiles p name outputs implicit order_only variables implicit_outputs) s =
     map_sum id snd (Files_getattr p name outputs implicit order_only variables implicit_outputs s)"
| "run_call h (CallTarget t name inputs variables) s =
     map_sum id snd (Target_getattr t name inputs variables s)"
| "run_call h (CallPhony t inputs) s = Inr (phony t inputs s)"
| "run_call h (CallDefault targets) s = Inr (default targets s)"
| "run_call h (CallGenName ext) s = Inr (snd (gen_name ext s))"

text \<open>A configuration script: the calls in order; the first exception ends it.\<close>

fun run :: "host \<Rightarrow> call list \<Rightarrow> ninju \<Rightarrow> error + ninju" where
  "run h [] s = Inr s"
| "run h (c # cs) s = (case run_call h c s of Inl e \<Rightarrow> Inl e | Inr s' \<Rightarrow> run h cs s')"

section \<open>Reference definitions for the properties\<close>

text \<open>What one argument of \<^verbatim>\<open>files(...)\<close> contributes to a file reference:
  \<^verbatim>\<open>None\<close> nothing, a file reference its tokens, a target reference its name, a
  list or tuple its elements in order, anything else itself.\<close>

fun tokens_of :: "pyval \<Rightarrow> pyval list" where
  "tokens_of PNone = []"
| "tokens_of (PFiles xs) = xs"
| "tokens_of (PTarget t) = [t]"
| "tokens_of (PList xs) = xs"
| "tokens_of (PTuple xs) = xs"
| "tokens_of v = [v]"

text \<open>The name with counter \<^verbatim>\<open>k\<close> and extension \<^verbatim>\<open>ext\<close>:
  \<^verbatim>\<open>${builddir}/.ninju_<k>.<ext>\<close>.\<close>

definition ninju_name :: "int \<Rightarrow> string \<Rightarrow> string" where
  "ninju_name k ext = ''${builddir}/.ninju_'' @ str_int k @ ''.'' @ ext"

text \<open>A host and the session \<^verbatim>\<open>Ninju()\<close> creates on it, for the concrete instances
  of the properties.\<close>

definition example_host :: host where
  "example_host = \<lparr>which = (\<lambda>x. if x = ''cc'' then Some ''/usr/bin/cc'' else None),
     caller_file = ''/proj/configure.py'', getcwd = ''/proj'',
     NINJU_MODULE_PATH = ''/lib/ninju.py'', NINJA_SYNTAX_MODULE_PATH = ''/lib/ninja_syntax.py''\<rparr>"

definition configure_rule :: NBuildRule where
  "configure_rule = \<lparr>br_name = ''configure'', br_executable = ''/proj/configure.py'',
     br_args = None, br_description = Some ''Regenerate ninja build file'', br_depfile = None,
     br_generator = True, br_pool = None, br_restat = False, br_rspfile = None,
     br_rspfile_content = None, br_deps = None, br_executable_path = ''/proj/configure.py''\<rparr>"

definition example_session :: ninju where
  "example_session = \<lparr>build_file = ''build.ninja'', build_dir = ''.builddir'',
     seq = [NVar ''ninja_required_version'' (PStr ''1.7'') 0,
            NVar ''root'' (PStr ''.'') 0,
            NVar ''builddir'' (PStr ''${root}/.builddir'') 0,
            BuildRule configure_rule,
            Build \<lparr>b_outputs = [PStr ''${root}/build.ninja''], b_rule = ''configure'',
                   b_inputs = PList [],
                   b_implicit = PFiles [PStr ''/proj/configure.py'', PStr ''/lib/ninju.py'',
                                        PStr ''/lib/ninja_syntax.py''],
                   b_order_only = PNone, b_variables = PNone, b_implicit_outputs = PNone\<rparr>],
     name_count = 0,
     cmds = [''configure'' \<mapsto> configure_rule],
     exec_cmds = Map.empty, pools = Map.empty,
     module_file = ''/proj/configure.py'', root_dir = ''/proj''\<rparr>"

text \<open>The names the name generator issues during a call, in order: the result of
  \<^verbatim>\<open>_gen_name\<close>, and the outputs that \<^verbatim>\<open>_normalize_outputs\<close> obtains from it (its
  first two branches).  \<^verbatim>\<open>run_names\<close> collects them over a sequence of calls.\<close>

fun the_str :: "pyval \<Rightarrow> string" where
  "the_str (PStr n) = n"
| "the_str v = []"

definition normalize_names :: "pyval \<Rightarrow> string \<Rightarrow> ninju \<Rightarrow> string list" where
  "normalize_names outputs ext s =
     (if \<not> truthy outputs \<or> is_int outputs
      then map the_str (fst (normalize_outputs outputs ext s)) else [])"

fun call_names :: "host \<Rightarrow> call \<Rightarrow> ninju \<Rightarrow> string list" where
  "call_names h (CallGenName ext) s = [fst (gen_name ext s)]"
| "call_names h (CallFiles p name outputs implicit order_only variables implicit_outputs) s =
     (case cmds s name of None \<Rightarrow> [] | Some r \<Rightarrow> normalize_names outputs ''tmp'' s)"
| "call_names h (CallTarget t name inputs variables) s =
     (case exec_cmds s name of
        None \<Rightarrow> []
      | Some r \<Rightarrow> if is_single_output t then normalize_names t ''tmp'' s else [])"
| "call_names h c s = []"

fun run_names :: "host \<Rightarrow> call list \<Rightarrow> ninju \<Rightarrow> string list" where
  "run_names h [] s = []"
| "run_names h (c # cs) s =
     call_names h c s @ (case run_call h c s of Inl e \<Rightarrow> [] | Inr s' \<Rightarrow> run_names h cs s')"

definition counted_from :: "int \<Rightarrow> string list \<Rightarrow> bool" where
  "counted_from c names =
     (\<forall>k < length names. \<exists>ext. names ! k = ninju_name (c + int k + 1) ext)"

definition example_calls :: "call list" where
  "example_calls = [CallGenName ''o'',
     CallFiles [PStr ''a.c''] ''configure'' (PInt 2) PNone PNone PNone PNone,
     CallVar ''x'' (PStr ''y''),
     CallFiles [PStr ''b.c''] ''configure'' PNone PNone PNone PNone PNone]"

text \<open>A pool definition with the given name; the name \<^verbatim>\<open>pool_<d>\<close> of depth
  \<^verbatim>\<open>d\<close>; and the invariant of the pool registry: the log holds exactly one pool
  definition for each registered name and none for the others.\<close>

fun is_pool_def :: "string \<Rightarrow> stmt \<Rightarrow> bool" where
  "is_pool_def n (NPool m d) = (m = n)"
| "is_pool_def n t = False"

definition pool_name_of :: "int \<Rightarrow> string" where
  "pool_name_of d = ''pool_'' @ str_int d"

definition pools_logged_once :: "ninju \<Rightarrow> bool" where
  "pools_logged_once s =
     (\<forall>n. length (filter (is_pool_def n) (seq s)) = (if pools s n = None then 0 else 1))"

text \<open>The rule \<^verbatim>\<open>configure\<close> that the constructor of the session registers.\<close>

definition bootstrap_rule :: "host \<Rightarrow> NBuildRule" where
  "bootstrap_rule h = NBuildRule_init h ''configure'' (caller_file h)
     (cmd_defaults\<lparr>o_description := Some ''Regenerate ninja build file'', o_generator := True\<rparr>)
     None"

text \<open>What a successful call appends to the log: \<^verbatim>\<open>pool_stmts\<close> is the pool
  definition of a depth not registered before, \<^verbatim>\<open>pool_ref\<close> the pool name the rule
  refers to, \<^verbatim>\<open>call_stmts\<close> the statements of one call, \<^verbatim>\<open>run_stmts\<close> those of a
  sequence of calls, \<^verbatim>\<open>appended_count\<close> their number for one call.\<close>

definition pool_stmts :: "pyval \<Rightarrow> ninju \<Rightarrow> stmt list" where
  "pool_stmts p s =
     (if is_int p \<and> pools s (''pool_'' @ format_int p) = None
      then [NPool (''pool_'' @ format_int p) p] else [])"

definition pool_ref :: "pyval \<Rightarrow> string option" where
  "pool_ref p = (if p = PNone then None
                 else if is_int p then Some (''pool_'' @ format_int p) else Some ''console'')"

fun call_stmts :: "host \<Rightarrow> call \<Rightarrow> ninju \<Rightarrow> stmt list" where
  "call_stmts h (CallVar key val) s = [NVar key val 0]"
| "call_stmts h (CallDir args v) s =
     (case v of
        None \<Rightarrow> []
      | Some k \<Rightarrow> if k = [] then [] else [NVar k (PStr (fst (dir args None s))) 0])"
| "call_stmts h (CallCmd name executable opts) s =
     pool_stmts (o_pool opts) s
     @ [BuildRule (NBuildRule_init h name executable opts (pool_ref (o_pool opts)))]"
| "call_stmts h (CallExecCmd name executable opts) s =
     [ExecRule (NExecRule_init h name executable opts)]"
| "call_stmts h (CallFiles p name outputs implicit order_only variables implicit_outputs) s =
     (case cmds s name of
        None \<Rightarrow> []
      | Some r \<Rightarrow>
          [Build \<lparr>b_outputs = fst (normalize_outputs outputs ''tmp'' s), b_rule = br_name r,
                  b_inputs = PList p,
                  b_implicit = Files_init [PStr (br_executable_path r), implicit],
                  b_order_only = order_only, b_variables = variables,
                  b_implicit_outputs = implicit_outputs\<rparr>])"
| "call_stmts h (CallTarget t name inputs variables) s =
     (case exec_cmds s name of
        None \<Rightarrow> []
      | Some r \<Rightarrow>
          [Build \<lparr>b_outputs = fst (normalize_outputs t ''tmp'' s), b_rule = er_name r,
                  b_inputs = inputs, b_implicit = PNone, b_order_only = PNone,
                  b_variables = variables, b_implicit_outputs = PNone\<rparr>])"
| "call_stmts h (CallPhony t inputs) s = [NPhony t (Files_init [inputs])]"
| "call_stmts h (CallDefault targets) s = [NDefault (Files_init targets)]"
| "call_stmts h (CallGenName ext) s = []"

fun run_stmts :: "host \<Rightarrow> call list \<Rightarrow> ninju \<Rightarrow> stmt list" where
  "run_stmts h [] s = []"
| "run_stmts h (c # cs) s =
     (case run_call h c s of Inl e \<Rightarrow> [] | Inr s' \<Rightarrow> call_stmts h c s @ run_stmts h cs s')"

fun appended_count :: "call \<Rightarrow> ninju \<Rightarrow> nat" where
  "appended_count (CallCmd name executable opts) s =
     (if is_int (o_pool opts) \<and> pools s (''pool_'' @ format_int (o_pool opts)) = None
      then 2 else 1)"
| "appended_count (CallDir args v) s = (if v = None \<or> v = Some [] then 0 else 1)"
| "appended_count (CallGenName ext) s = 0"
| "appended_count c s = 1"

text \<open>Two more registrations with pools, after a first request for depth 2.\<close>

definition pool_calls :: "call list" where
  "pool_calls = [CallCmd ''slow'' ''cc'' (cmd_defaults\<lparr>o_pool := PInt 4\<rparr>),
                 CallCmd ''link'' ''cc'' (cmd_defaults\<lparr>o_pool := PInt 2\<rparr>)]"

definition pool_session1 :: ninju where
  "pool_session1 = example_session\<lparr>seq := seq example_session @ [NPool ''pool_2'' (PInt 2)],
     pools := [''pool_2'' \<mapsto> True]\<rparr>"

definition pool_session2 :: ninju where
  "pool_session2 = projr (run example_host pool_calls pool_session1)"

text \<open>For the serialization: a statement is writable when its \<^verbatim>\<open>write\<close> raises
  nothing; \<^verbatim>\<open>render\<close> is what the writer receives for one statement;
  \<^verbatim>\<open>first_error\<close> is the exception of the first statement that is not writable;
  \<^verbatim>\<open>is_statement\<close> holds for the writer calls other than comments and blank
  lines.\<close>

definition writable :: "(pyval \<Rightarrow> string) \<Rightarrow> stmt \<Rightarrow> bool" where
  "writable str t = (case stmt_write str t of Inl e \<Rightarrow> False | Inr c \<Rightarrow> True)"

definition render :: "(pyval \<Rightarrow> string) \<Rightarrow> bool \<Rightarrow> stmt \<Rightarrow> emit list" where
  "render str newline t =
     (case stmt_write str t of
        Inl e \<Rightarrow> []
      | Inr c \<Rightarrow> if newline then [c, WNewline] else [c])"

definition first_error :: "(pyval \<Rightarrow> string) \<Rightarrow> stmt list \<Rightarrow> error option" where
  "first_error str tasks =
     (case dropWhile (writable str) tasks of
        [] \<Rightarrow> None
      | t # ts \<Rightarrow> (case stmt_write str t of Inl e \<Rightarrow> Some e | Inr c \<Rightarrow> None))"

fun is_statement :: "emit \<Rightarrow> bool" where
  "is_statement (WComment c) = False"
| "is_statement WNewline = False"
| "is_statement c = True"

text \<open>A short configuration script on the example session, and the session it
  leaves.\<close>

definition order_calls :: "call list" where
  "order_calls = [CallCmd ''compile'' ''cc'' cmd_defaults,
     CallFiles [PStr ''a.c''] ''compile'' PNone PNone PNone PNone PNone,
     CallDefault [PStr ''all'']]"

definition compile_rule :: NBuildRule where
  "compile_rule = NBuildRule_init example_host ''compile'' ''cc'' cmd_defaults None"

definition order_session :: ninju where
  "order_session = example_session\<lparr>
     seq := seq example_session @
       [BuildRule compile_rule,
        Build \<lparr>b_outputs = [PStr ''${builddir}/.ninju_1.tmp''], b_rule = ''compile'',
               b_inputs = PList [PStr ''a.c''], b_implicit = PFiles [PStr ''/usr/bin/cc''],
               b_order_only = PNone, b_variables = PNone, b_implicit_outputs = PNone\<rparr>,
        NDefault (PFiles [PStr ''all''])],
     name_count := 1,
     cmds := (cmds example_session)(''compile'' \<mapsto> compile_rule)\<rparr>"

text \<open>A token that a file reference keeps as it is; the invariant that every registered
  build rule is stored under its own name with its executable resolved; a registered
  exec rule for the examples; the values with a number of elements.\<close>

fun is_token :: "pyval \<Rightarrow> bool" where
  "is_token PNone = False"
| "is_token (PFiles xs) = False"
| "is_token (PTarget t) = False"
| "is_token (PList xs) = False"
| "is_token (PTuple xs) = False"
| "is_token v = True"

definition rules_resolved :: "host \<Rightarrow> ninju \<Rightarrow> bool" where
  "rules_resolved h s =
     (\<forall>name r. cmds s name = Some r \<longrightarrow>
        br_name r = name \<and> br_executable_path r = resolve h (br_executable r))"

definition example_exec_rule :: NExecRule where
  "example_exec_rule = NExecRule_init example_host ''deploy'' ''sh'' exec_defaults"

fun is_collection :: "pyval \<Rightarrow> bool" where
  "is_collection (PFiles xs) = True"
| "is_collection (PList xs) = True"
| "is_collection (PTuple xs) = True"
| "is_collection v = False"

text \<open>A script whose two calls succeed and whose log cannot be generated in full: a
  build edge without outputs, then a variable.\<close>

definition failing_calls :: "call list" where
  "failing_calls = [CallFiles [PStr ''a.c''] ''configure'' (PFiles []) PNone PNone PNone PNone,
     CallVar ''x'' (PStr ''y'')]"

definition failing_session :: ninju where
  "failing_session = example_session\<lparr>
     seq := seq example_session @
       [Build \<lparr>b_outputs = [], b_rule = ''configure'', b_inputs = PList [PStr ''a.c''],
               b_implicit = PFiles [PStr ''/proj/configure.py''],
               b_order_only = PNone, b_variables = PNone, b_implicit_outputs = PNone\<rparr>,
        NVar ''x'' (PStr ''y'') 0]\<rparr>"

section \<open>Properties\<close>

subsection \<open>Decimal formatting is injective\<close>

lemma digit_cases: "d < 10 \<Longrightarrow> d \<in> {0,1,2,3,4,5,6,7,8,9::nat}"
  by auto

lemma of_char_digit: "d < 10 \<Longrightarrow> digit_val (digit_char d) = d"
proof -
  assume "d < 10"
  then have "d \<in> {0,1,2,3,4,5,6,7,8,9::nat}" by (rule digit_cases)
  then show ?thesis by (auto simp: digit_val_def digit_char_def)
qed

lemma nat_of_str_snoc: "nat_of_str (s @ [c]) = 10 * nat_of_str s + digit_val c"
  by (simp add: nat_of_str_def)

lemma nat_of_str_str_nat: "nat_of_str (str_nat n) = n"
proof (induction n rule: str_nat.induct)
  case (1 n)
  show ?case
  proof (cases "n < 10")
    case True
    then show ?thesis by (subst str_nat.simps) (simp add: nat_of_str_def of_char_digit)
  next
    case False
    have "str_nat n = str_nat (n div 10) @ [digit_char (n mod 10)]"
      using False by (subst str_nat.simps) simp
    then show ?thesis using 1[OF False] by (simp add: nat_of_str_snoc of_char_digit)
  qed
qed

lemma str_nat_inj: "str_nat m = str_nat n \<Longrightarrow> m = n"
proof -
  assume "str_nat m = str_nat n"
  then have "nat_of_str (str_nat m) = nat_of_str (str_nat n)" by simp
  then show ?thesis by (simp only: nat_of_str_str_nat)
qed

lemma digit_char_neq: "d < 10 \<Longrightarrow> digit_char d \<noteq> CHR ''.'' \<and> digit_char d \<noteq> CHR ''-''"
proof -
  assume "d < 10"
  then have "d \<in> {0,1,2,3,4,5,6,7,8,9::nat}" by (rule digit_cases)
  then show ?thesis by (auto simp: digit_char_def)
qed

lemma str_nat_digits: "c \<in> set (str_nat n) \<Longrightarrow> c \<noteq> CHR ''.'' \<and> c \<noteq> CHR ''-''"
proof (induction n rule: str_nat.induct)
  case (1 n)
  show ?case
  proof (cases "n < 10")
    case True
    then show ?thesis using 1(2) digit_char_neq[of n] by (subst (asm) str_nat.simps) simp
  next
    case False
    have eq: "str_nat n = str_nat (n div 10) @ [digit_char (n mod 10)]"
      using False by (subst str_nat.simps) simp
    show ?thesis using 1(2) 1(1)[OF False] digit_char_neq[of "n mod 10"] unfolding eq by auto
  qed
qed

lemma str_nat_nonempty: "str_nat n \<noteq> []"
  by (subst str_nat.simps) simp

lemma str_int_no_dot: "CHR ''.'' \<notin> set (str_int i)"
  using str_nat_digits by (auto simp: str_int_def)

lemma str_nat_no_minus: "str_nat n \<noteq> CHR ''-'' # t"
proof
  assume "str_nat n = CHR ''-'' # t"
  then have "CHR ''-'' \<in> set (str_nat n)" by simp
  then show False using str_nat_digits by blast
qed

lemma str_int_inj: "str_int i = str_int j \<Longrightarrow> i = j"
proof -
  assume a: "str_int i = str_int j"
  consider "i < 0" "j < 0" | "i < 0" "\<not> j < 0" | "\<not> i < 0" "j < 0" | "\<not> i < 0" "\<not> j < 0"
    by blast
  then show ?thesis
  proof cases
    case 1
    with a have "str_nat (nat (- i)) = str_nat (nat (- j))" by (simp add: str_int_def)
    then have "nat (- i) = nat (- j)" by (rule str_nat_inj)
    with 1 show ?thesis by simp
  next
    case 2
    with a have "str_nat (nat j) = CHR ''-'' # str_nat (nat (- i))" by (simp add: str_int_def)
    then show ?thesis using str_nat_no_minus by blast
  next
    case 3
    with a have "str_nat (nat i) = CHR ''-'' # str_nat (nat (- j))" by (simp add: str_int_def)
    then show ?thesis using str_nat_no_minus by blast
  next
    case 4
    with a have "str_nat (nat i) = str_nat (nat j)" by (simp add: str_int_def)
    then have "nat i = nat j" by (rule str_nat_inj)
    with 4 show ?thesis by simp
  qed
qed

subsection \<open>Flattening of file references\<close>

lemma Files_loop_concat: "Files_loop args files = files @ concat (map tokens_of args)"
proof (induction args arbitrary: files)
  case Nil
  show ?case by simp
next
  case (Cons f fs)
  show ?case by (cases f) (simp_all add: Cons.IH)
qed

text \<open>C9: constructing a file reference flattens its argument list one level:
  \<^verbatim>\<open>None\<close> is dropped, the tokens of a file reference are spliced in, a target
  reference gives its name as one token, the elements of a list or tuple are spliced in
  in order, and nothing is deduplicated; the arguments
  \<^verbatim>\<open>[None, ["a","b"], FileRef(["c"]), TargetRef("d")]\<close> give the tokens
  \<^verbatim>\<open>["a","b","c","d"]\<close>.\<close>

theorem Files_init_flattens:
  "Files_init args = PFiles (concat (map tokens_of args))
   \<and> Files_init [PNone, PList [PStr ''a'', PStr ''b''], PFiles [PStr ''c''], PTarget (PStr ''d'')]
       = PFiles [PStr ''a'', PStr ''b'', PStr ''c'', PStr ''d'']"
  by (simp add: Files_init_def Files_loop_concat)

subsection \<open>Generated names\<close>

lemma example_session_init:
  "Ninju_init example_host ''build.ninja'' ''.builddir'' False = Inr example_session"
  by (simp add: Ninju_init_def example_host_def example_session_def configure_rule_def
      os_path_dirname_def var_def cmd_def setup_pool_def cmd_defaults_def NBuildRule_init_def
      resolve_def Files_getattr_def build_fn_def normalize_outputs_def root_def Files_init_def
      os_path_join_def NINJA_REQUIRED_VERSION_def Let_def)

lemma gen_name_eq:
  "gen_name ext s = (ninju_name (name_count s + 1) ext, s\<lparr>name_count := name_count s + 1\<rparr>)"
  by (simp add: gen_name_def ninju_name_def Let_def)

lemma upt_Suc_shift: "[Suc 0..<Suc (Suc n)] = Suc 0 # map Suc [Suc 0..<Suc n]"
  by (simp add: map_Suc_upt upt_conv_Cons del: upt_Suc)

lemma gen_loop_eq:
  "gen_loop n ext outs s =
     (outs @ map (\<lambda>k. PStr (ninju_name (name_count s + int k) ext)) [1..<Suc n],
      s\<lparr>name_count := name_count s + int n\<rparr>)"
proof (induction n arbitrary: outs s)
  case 0
  show ?case by simp
next
  case (Suc n)
  have "gen_loop (Suc n) ext outs s =
      gen_loop n ext (outs @ [PStr (ninju_name (name_count s + 1) ext)])
        (s\<lparr>name_count := name_count s + 1\<rparr>)"
    by (simp add: gen_name_eq)
  also have "\<dots> = (outs @ PStr (ninju_name (name_count s + 1) ext) #
        map (\<lambda>k. PStr (ninju_name (name_count s + 1 + int k) ext)) [1..<Suc n],
      s\<lparr>name_count := name_count s + 1 + int n\<rparr>)"
    by (simp add: Suc.IH)
  also have "map (\<lambda>k. PStr (ninju_name (name_count s + 1 + int k) ext)) [1..<Suc n]
      = map (\<lambda>k. PStr (ninju_name (name_count s + int k) ext)) (map Suc [1..<Suc n])"
    by (simp add: comp_def algebra_simps del: upt_Suc)
  finally show ?case
    by (simp only: upt_Suc_shift One_nat_def list.map) (simp add: add.assoc add.commute)
qed

lemma dot_split:
  assumes "xs @ CHR ''.'' # ys = xs' @ CHR ''.'' # ys'"
    and "CHR ''.'' \<notin> set xs" and "CHR ''.'' \<notin> set xs'"
  shows "xs = xs' \<and> ys = ys'"
proof -
  have tw: "\<And>us vs. CHR ''.'' \<notin> set us \<Longrightarrow>
      takeWhile (\<lambda>c. c \<noteq> CHR ''.'') (us @ CHR ''.'' # vs) = us"
    subgoal for us vs by (induction us) auto
    done
  have a: "takeWhile (\<lambda>c. c \<noteq> CHR ''.'') (xs @ CHR ''.'' # ys) = xs"
    using assms(2) by (rule tw)
  have b: "takeWhile (\<lambda>c. c \<noteq> CHR ''.'') (xs' @ CHR ''.'' # ys') = xs'"
    using assms(3) by (rule tw)
  from a b assms(1) have "xs = xs'" by simp
  with assms(1) show ?thesis by simp
qed

lemma ninju_name_inj:
  "ninju_name k ext = ninju_name k' ext' \<Longrightarrow> k = k' \<and> ext = ext'"
proof -
  assume "ninju_name k ext = ninju_name k' ext'"
  then have "str_int k @ CHR ''.'' # ext = str_int k' @ CHR ''.'' # ext'"
    by (simp add: ninju_name_def)
  then have "str_int k = str_int k' \<and> ext = ext'"
    by (rule dot_split) (rule str_int_no_dot)+
  then show ?thesis using str_int_inj by blast
qed

lemma ninju_names_distinct:
  "distinct (map (\<lambda>k. PStr (ninju_name (c + int k) ext)) [1..<Suc n])"
  by (auto simp: distinct_map inj_on_def dest!: ninju_name_inj simp del: upt_Suc)

subsection \<open>Output normalization\<close>

text \<open>C6 (as amended): output normalization resolves in this order.  A false value
  (\<^verbatim>\<open>None\<close>, \<^verbatim>\<open>False\<close>, \<^verbatim>\<open>0\<close>, the empty string, an empty list, tuple or
  dictionary) gives exactly one generated name; otherwise an integer \<^verbatim>\<open>N\<close> gives
  \<^verbatim>\<open>max(N, 0)\<close> pairwise distinct generated names with consecutive counters;
  otherwise a file reference gives its token list; otherwise a list is used as it is;
  any other value is wrapped as a one-element list.\<close>

theorem normalize_outputs_cases:
  "normalize_outputs outputs ext s =
     (if \<not> truthy outputs
      then ([PStr (ninju_name (name_count s + 1) ext)], s\<lparr>name_count := name_count s + 1\<rparr>)
      else if is_int outputs
      then (map (\<lambda>k. PStr (ninju_name (name_count s + int k) ext))
              [1..<Suc (nat (int_of outputs))],
            s\<lparr>name_count := name_count s + int (nat (int_of outputs))\<rparr>)
      else (case outputs of PFiles fs \<Rightarrow> fs | PList xs \<Rightarrow> xs | v \<Rightarrow> [v], s))
   \<and> distinct (map (\<lambda>k. PStr (ninju_name (name_count s + int k) ext))
         [1..<Suc (nat (int_of outputs))])
   \<and> length (map (\<lambda>k. PStr (ninju_name (name_count s + int k) ext))
         [1..<Suc (nat (int_of outputs))]) = nat (int_of outputs)"
proof -
  have "normalize_outputs outputs ext s =
     (if \<not> truthy outputs
      then ([PStr (ninju_name (name_count s + 1) ext)], s\<lparr>name_count := name_count s + 1\<rparr>)
      else if is_int outputs
      then (map (\<lambda>k. PStr (ninju_name (name_count s + int k) ext))
              [1..<Suc (nat (int_of outputs))],
            s\<lparr>name_count := name_count s + int (nat (int_of outputs))\<rparr>)
      else (case outputs of PFiles fs \<Rightarrow> fs | PList xs \<Rightarrow> xs | v \<Rightarrow> [v], s))"
    by (cases outputs) (simp_all add: normalize_outputs_def gen_name_eq gen_loop_eq del: upt_Suc)
  moreover have "length (map (\<lambda>k. PStr (ninju_name (name_count s + int k) ext))
         [1..<Suc (nat (int_of outputs))]) = nat (int_of outputs)"
    by simp
  ultimately show ?thesis using ninju_names_distinct by blast
qed

text \<open>The claim C6 as stated fails on false values: the integer \<^verbatim>\<open>0\<close> gives one
  name, not none; the empty list is not used as it is; the empty string is not
  wrapped.\<close>

theorem normalize_outputs_falsy_counterexample:
  "fst (normalize_outputs (PInt 0) ''tmp'' example_session) = [PStr ''${builddir}/.ninju_1.tmp'']
   \<and> fst (normalize_outputs (PList []) ''tmp'' example_session) = [PStr ''${builddir}/.ninju_1.tmp'']
   \<and> fst (normalize_outputs (PStr '''') ''tmp'' example_session) = [PStr ''${builddir}/.ninju_1.tmp'']"
  by (simp add: normalize_outputs_def gen_name_def example_session_def str_int_def
      str_nat.simps digit_char_def)

subsection \<open>Names issued over a session\<close>

lemma counted_from_Nil: "counted_from c []"
  by (simp add: counted_from_def)

lemma counted_from_append:
  assumes "counted_from c xs" and "counted_from (c + int (length xs)) ys"
  shows "counted_from c (xs @ ys)"
  unfolding counted_from_def
proof (intro allI impI)
  fix k assume k: "k < length (xs @ ys)"
  show "\<exists>ext. (xs @ ys) ! k = ninju_name (c + int k + 1) ext"
  proof (cases "k < length xs")
    case True
    then show ?thesis using assms(1) by (simp add: counted_from_def nth_append)
  next
    case False
    then have "k - length xs < length ys" using k by simp
    then obtain ext where "ys ! (k - length xs) = ninju_name (c + int (length xs) + int (k - length xs) + 1) ext"
      using assms(2) unfolding counted_from_def by blast
    moreover have "c + int (length xs) + int (k - length xs) = c + int k" using False by simp
    ultimately show ?thesis using False by (auto simp: nth_append)
  qed
qed

lemma counted_from_range:
  "counted_from c (map (\<lambda>k. ninju_name (c + int k) ext) [1..<Suc n])"
  unfolding counted_from_def
proof (intro allI impI)
  fix k assume "k < length (map (\<lambda>k. ninju_name (c + int k) ext) [1..<Suc n])"
  then have "k < n" by (simp del: upt_Suc)
  then have "[1..<Suc n] ! k = Suc k" by (simp del: upt_Suc)
  then have "map (\<lambda>k. ninju_name (c + int k) ext) [1..<Suc n] ! k = ninju_name (c + int k + 1) ext"
    using \<open>k < n\<close> by (simp add: algebra_simps del: upt_Suc)
  then show "\<exists>e. map (\<lambda>k. ninju_name (c + int k) ext) [1..<Suc n] ! k = ninju_name (c + int k + 1) e"
    by blast
qed

lemma counted_from_distinct: "counted_from c names \<Longrightarrow> distinct names"
proof -
  assume a: "counted_from c names"
  have "\<And>i j. i < length names \<Longrightarrow> j < length names \<Longrightarrow> i \<noteq> j \<Longrightarrow> names ! i \<noteq> names ! j"
  proof
    fix i j assume i: "i < length names" and j: "j < length names" and ne: "i \<noteq> j"
      and eq: "names ! i = names ! j"
    from a i obtain e where e: "names ! i = ninju_name (c + int i + 1) e"
      unfolding counted_from_def by blast
    from a j obtain e' where e': "names ! j = ninju_name (c + int j + 1) e'"
      unfolding counted_from_def by blast
    from e e' eq have "c + int i + 1 = c + int j + 1" using ninju_name_inj by metis
    then show False using ne by simp
  qed
  then show ?thesis by (simp add: distinct_conv_nth)
qed

lemma normalize_names_eq:
  "normalize_names outputs ext s =
     (if \<not> truthy outputs then [ninju_name (name_count s + 1) ext]
      else if is_int outputs
      then map (\<lambda>k. ninju_name (name_count s + int k) ext) [1..<Suc (nat (int_of outputs))]
      else [])"
  by (cases outputs)
     (simp_all add: normalize_names_def normalize_outputs_def gen_name_eq gen_loop_eq comp_def
        del: upt_Suc)

lemma normalize_names_counted: "counted_from (name_count s) (normalize_names outputs ext s)"
proof -
  have one: "counted_from (name_count s) [ninju_name (name_count s + 1) ext]"
    by (auto simp: counted_from_def)
  show ?thesis
    unfolding normalize_names_eq using one counted_from_range counted_from_Nil by simp
qed

lemma normalize_count:
  "name_count (snd (normalize_outputs outputs ext s)) =
     name_count s + int (length (normalize_names outputs ext s))"
  by (cases outputs)
     (simp_all add: normalize_names_eq normalize_outputs_def gen_name_eq gen_loop_eq
        del: upt_Suc)

lemma setup_pool_count: "setup_pool p s = Inr (r, s') \<Longrightarrow> name_count s' = name_count s"
  by (auto simp: setup_pool_def Let_def split: if_splits)

lemma call_names_counted: "counted_from (name_count s) (call_names h c s)"
proof (cases c)
  case (CallGenName ext)
  then show ?thesis by (auto simp: counted_from_def gen_name_eq)
qed (auto simp: counted_from_Nil normalize_names_counted split: option.splits)

lemma run_call_count:
  "run_call h c s = Inr s' \<Longrightarrow> name_count s' = name_count s + int (length (call_names h c s))"
proof (cases c)
  case (CallCmd name executable opts)
  assume "run_call h c s = Inr s'"
  with CallCmd show ?thesis
    by (auto simp: cmd_def Let_def split: sum.splits dest: setup_pool_count)
next
  case (CallFiles p name outputs implicit order_only variables implicit_outputs)
  assume "run_call h c s = Inr s'"
  with CallFiles show ?thesis
    using normalize_count[of outputs "''tmp''" s]
    by (auto simp: Files_getattr_def build_fn_def Let_def split: option.splits prod.splits)
next
  case (CallTarget t name inputs variables)
  assume "run_call h c s = Inr s'"
  with CallTarget show ?thesis
    using normalize_count[of t "''tmp''" s]
    by (auto simp: Target_getattr_def exec_fn_def Let_def split: option.splits prod.splits if_splits)
next
  case (CallDir args v)
  assume "run_call h c s = Inr s'"
  with CallDir show ?thesis
    by (auto simp: dir_def var_def Let_def split: option.splits if_splits)
qed (auto simp: var_def exec_cmd_def phony_def default_def gen_name_eq Let_def)

lemma run_names_counted: "counted_from (name_count s) (run_names h calls s)"
proof (induction calls arbitrary: s)
  case Nil
  show ?case by (simp add: counted_from_Nil)
next
  case (Cons c cs)
  show ?case
  proof (cases "run_call h c s")
    case (Inl e)
    then show ?thesis using call_names_counted[of s h c] by simp
  next
    case (Inr s')
    have "counted_from (name_count s + int (length (call_names h c s))) (run_names h cs s')"
      using Cons.IH[of s'] run_call_count[OF Inr] by simp
    then show ?thesis using Inr call_names_counted[of s h c] by (simp add: counted_from_append)
  qed
qed

lemma Ninju_init_count: "Ninju_init h bf bd nc = Inr s \<Longrightarrow> name_count s = 0"
  by (auto simp: Ninju_init_def Let_def var_def cmd_def setup_pool_def cmd_defaults_def
      Files_getattr_def build_fn_def normalize_outputs_def root_def Files_init_def
      split: if_splits sum.splits option.splits)

text \<open>C7: in a new session the first generated name carries the counter 1; every call
  of the name generator returns \<^verbatim>\<open>${builddir}/.ninju_<counter>.<ext>\<close> with the
  counter one more than before; over any sequence of configuration calls the k-th name
  issued carries the counter k, and the names issued are pairwise distinct.\<close>

theorem session_names_counted:
  assumes "Ninju_init h bf bd nc = Inr s"
  shows "gen_name ext s = (ninju_name 1 ext, s\<lparr>name_count := 1\<rparr>)
    \<and> (\<forall>t. gen_name ext t = (ninju_name (name_count t + 1) ext, t\<lparr>name_count := name_count t + 1\<rparr>))
    \<and> (\<forall>k < length (run_names h calls s).
          \<exists>e. run_names h calls s ! k = ninju_name (int k + 1) e)
    \<and> distinct (run_names h calls s)"
proof -
  have c0: "name_count s = 0" using assms by (rule Ninju_init_count)
  have cf: "counted_from 0 (run_names h calls s)" using run_names_counted[of s h calls] c0 by simp
  have "\<forall>k < length (run_names h calls s). \<exists>e. run_names h calls s ! k = ninju_name (int k + 1) e"
    using cf by (simp add: counted_from_def)
  moreover have "distinct (run_names h calls s)" using cf by (rule counted_from_distinct)
  moreover have "gen_name ext s = (ninju_name 1 ext, s\<lparr>name_count := 1\<rparr>)"
    using c0 by (simp add: gen_name_eq)
  ultimately show ?thesis using gen_name_eq by blast
qed

lemma example_names:
  "run_names example_host example_calls example_session =
     [''${builddir}/.ninju_1.o'', ''${builddir}/.ninju_2.tmp'', ''${builddir}/.ninju_3.tmp'',
      ''${builddir}/.ninju_4.tmp'']"
  by (simp add: example_calls_def example_session_def normalize_names_eq gen_name_eq
      Files_getattr_def build_fn_def normalize_outputs_def gen_loop_eq ninju_name_def
      str_int_def str_nat.simps digit_char_def var_def configure_rule_def Files_init_def
      upt_rec)

theorem session_names_counted_witness:
  "Ninju_init example_host ''build.ninja'' ''.builddir'' False = Inr example_session
   \<and> run_names example_host example_calls example_session ! 3 = ''${builddir}/.ninju_4.tmp''
   \<and> distinct (run_names example_host example_calls example_session)"
proof -
  have d: "distinct (run_names example_host example_calls example_session)"
    using session_names_counted[OF example_session_init, of "''tmp''" example_calls] by blast
  show ?thesis using d example_session_init by (simp add: example_names)
qed

subsection \<open>What each call appends\<close>

lemma normalize_state:
  "snd (normalize_outputs outputs ext s) =
     s\<lparr>name_count := name_count s + int (length (normalize_names outputs ext s))\<rparr>"
  by (cases outputs)
     (simp_all add: normalize_names_eq normalize_outputs_def gen_name_eq gen_loop_eq
        del: upt_Suc)

lemma normalize_frame:
  "seq (snd (normalize_outputs outputs ext s)) = seq s"
  "pools (snd (normalize_outputs outputs ext s)) = pools s"
  "cmds (snd (normalize_outputs outputs ext s)) = cmds s"
  "exec_cmds (snd (normalize_outputs outputs ext s)) = exec_cmds s"
  by (simp_all add: normalize_state)

lemma setup_pool_Inr:
  assumes "setup_pool p s = Inr (r, s')"
  shows "r = pool_ref p" and "seq s' = seq s @ pool_stmts p s"
    and "pools s' = (if pool_stmts p s = [] then pools s
                     else (pools s)(''pool_'' @ format_int p \<mapsto> True))"
    and "cmds s' = cmds s" and "exec_cmds s' = exec_cmds s"
  using assms
  by (auto simp: setup_pool_def pool_ref_def pool_stmts_def Let_def split: if_splits)

lemma cmd_Inr:
  assumes "cmd h name executable opts s = Inr s'"
  shows "seq s' = seq s @ call_stmts h (CallCmd name executable opts) s"
    and "pools s' = (if pool_stmts (o_pool opts) s = [] then pools s
                     else (pools s)(''pool_'' @ format_int (o_pool opts) \<mapsto> True))"
proof -
  from assms obtain r s1 where sp: "setup_pool (o_pool opts) s = Inr (r, s1)"
    and s': "s' = s1\<lparr>seq := seq s1 @ [BuildRule (NBuildRule_init h name executable opts r)],
                      cmds := (cmds s1)(name \<mapsto> NBuildRule_init h name executable opts r)\<rparr>"
    by (auto simp: cmd_def Let_def split: sum.splits)
  show "seq s' = seq s @ call_stmts h (CallCmd name executable opts) s"
    using setup_pool_Inr(1,2)[OF sp] by (simp add: s')
  show "pools s' = (if pool_stmts (o_pool opts) s = [] then pools s
                     else (pools s)(''pool_'' @ format_int (o_pool opts) \<mapsto> True))"
    using setup_pool_Inr(3)[OF sp] by (simp add: s')
qed

lemma run_call_seq:
  assumes "run_call h c s = Inr s'"
  shows "seq s' = seq s @ call_stmts h c s"
proof (cases c)
  case (CallVar key val)
  with assms show ?thesis by (auto simp: var_def)
next
  case (CallDir args v)
  with assms show ?thesis
    by (auto simp: dir_def var_def Let_def split: option.splits)
next
  case (CallCmd name executable opts)
  with assms show ?thesis using cmd_Inr(1) by simp
next
  case (CallExecCmd name executable opts)
  with assms show ?thesis by (auto simp: exec_cmd_def Let_def)
next
  case (CallFiles p name outputs implicit order_only variables implicit_outputs)
  show ?thesis
  proof (cases "cmds s name")
    case None
    with assms CallFiles show ?thesis by (simp add: Files_getattr_def)
  next
    case (Some r)
    with assms CallFiles have "s' = snd (build_fn r (PList p) outputs implicit order_only variables implicit_outputs s)"
      by (simp add: Files_getattr_def)
    then show ?thesis using Some CallFiles
      by (simp add: build_fn_def Let_def case_prod_beta normalize_frame)
  qed
next
  case (CallTarget t name inputs variables)
  show ?thesis
  proof (cases "exec_cmds s name")
    case None
    with assms CallTarget show ?thesis by (simp add: Target_getattr_def)
  next
    case (Some r)
    with assms CallTarget have e: "map_sum id snd (exec_fn r t inputs variables s) = Inr s'"
      by (simp add: Target_getattr_def)
    then have "is_single_output t" by (auto simp: exec_fn_def split: if_splits)
    with e have "s' = (snd (normalize_outputs t ''tmp'' s))\<lparr>seq := seq (snd (normalize_outputs t ''tmp'' s)) @
        [Build \<lparr>b_outputs = fst (normalize_outputs t ''tmp'' s), b_rule = er_name r,
                  b_inputs = inputs, b_implicit = PNone, b_order_only = PNone,
                  b_variables = variables, b_implicit_outputs = PNone\<rparr>]\<rparr>"
      by (simp add: exec_fn_def Let_def case_prod_beta)
    then show ?thesis using Some CallTarget by (simp add: normalize_frame)
  qed
next
  case (CallPhony t inputs)
  with assms show ?thesis by (auto simp: phony_def)
next
  case (CallDefault targets)
  with assms show ?thesis by (auto simp: default_def)
next
  case (CallGenName ext)
  with assms show ?thesis by (auto simp: gen_name_def Let_def)
qed

lemma run_call_pools:
  assumes "run_call h c s = Inr s'"
  shows "pools s' = (case c of
           CallCmd name executable opts \<Rightarrow>
             (if pool_stmts (o_pool opts) s = [] then pools s
              else (pools s)(''pool_'' @ format_int (o_pool opts) \<mapsto> True))
         | _ \<Rightarrow> pools s)"
proof (cases c)
  case (CallCmd name executable opts)
  with assms show ?thesis using cmd_Inr(2) by simp
next
  case (CallDir args v)
  with assms show ?thesis by (auto simp: dir_def var_def Let_def split: option.splits)
next
  case (CallFiles p name outputs implicit order_only variables implicit_outputs)
  with assms show ?thesis
    by (cases "cmds s name")
       (auto simp: Files_getattr_def build_fn_def Let_def case_prod_beta normalize_frame)
next
  case (CallTarget t name inputs variables)
  with assms show ?thesis
    by (cases "exec_cmds s name")
       (auto simp: Target_getattr_def exec_fn_def Let_def case_prod_beta normalize_frame
          split: if_splits)
qed (use assms in \<open>auto simp: var_def exec_cmd_def phony_def default_def gen_name_def Let_def\<close>)

subsection \<open>The pool registry\<close>

lemma Ninju_init_state:
  assumes "Ninju_init h bf bd nc = Inr s"
  shows "name_count s = 0" and "pools s = Map.empty" and "exec_cmds s = Map.empty"
    and "cmds s = [''configure'' \<mapsto> bootstrap_rule h]"
    and "seq s = [NVar ''ninja_required_version'' (PStr ''1.7'') 0,
                  NVar ''root'' (PStr ''.'') 0,
                  NVar ''builddir'' (PStr (os_path_join ''${root}'' [bd])) 0,
                  BuildRule (bootstrap_rule h),
                  Build \<lparr>b_outputs = [PStr (os_path_join ''${root}'' [bf])],
                         b_rule = ''configure'', b_inputs = PList [],
                         b_implicit = PFiles [PStr (resolve h (caller_file h)),
                            PStr (NINJU_MODULE_PATH h), PStr (NINJA_SYNTAX_MODULE_PATH h)],
                         b_order_only = PNone, b_variables = PNone,
                         b_implicit_outputs = PNone\<rparr>]"
  using assms
  by (auto simp: Ninju_init_def Let_def var_def cmd_def setup_pool_def cmd_defaults_def
      Files_getattr_def build_fn_def normalize_outputs_def root_def Files_init_def
      bootstrap_rule_def NBuildRule_init_def NINJA_REQUIRED_VERSION_def
      split: if_splits)

lemma setup_pool_int:
  "1 \<le> d \<Longrightarrow> setup_pool (PInt d) s =
     Inr (Some (pool_name_of d),
          if pools s (pool_name_of d) = None
          then s\<lparr>seq := seq s @ [NPool (pool_name_of d) (PInt d)],
                 pools := (pools s)(pool_name_of d \<mapsto> True)\<rparr>
          else s)"
  by (simp add: setup_pool_def pool_name_of_def Let_def)

lemma logged_fresh:
  "pools_logged_once s \<Longrightarrow> pools s n = None \<Longrightarrow> filter (is_pool_def n) (seq s) = []"
  by (auto simp: pools_logged_once_def dest!: spec[of _ n])

lemma logged_once:
  "pools_logged_once s \<Longrightarrow> pools s n \<noteq> None \<Longrightarrow> length (filter (is_pool_def n) (seq s)) = 1"
  by (auto simp: pools_logged_once_def dest!: spec[of _ n])

lemma run_seq: "run h cs s = Inr s' \<Longrightarrow> seq s' = seq s @ run_stmts h cs s"
proof (induction cs arbitrary: s)
  case Nil
  then show ?case by simp
next
  case (Cons c cs)
  then obtain s1 where c: "run_call h c s = Inr s1" and r: "run h cs s1 = Inr s'"
    by (auto split: sum.splits)
  show ?case using Cons.IH[OF r] run_call_seq[OF c] c by simp
qed

lemma run_append:
  "run h (cs1 @ cs2) s = (case run h cs1 s of Inl e \<Rightarrow> Inl e | Inr s1 \<Rightarrow> run h cs2 s1)"
  by (induction cs1 arbitrary: s) (auto split: sum.splits)

lemma call_stmts_no_pool:
  "pool_stmts (case c of CallCmd name executable opts \<Rightarrow> o_pool opts | _ \<Rightarrow> PNone) s = []
   \<Longrightarrow> filter (is_pool_def n) (call_stmts h c s) = []"
  by (cases c) (auto split: option.splits)

lemma run_call_logged:
  assumes inv: "pools_logged_once s" and c: "run_call h c s = Inr s'"
  shows "pools_logged_once s'"
proof -
  let ?p = "case c of CallCmd name executable opts \<Rightarrow> o_pool opts | _ \<Rightarrow> PNone"
  have pools': "pools s' = (if pool_stmts ?p s = [] then pools s
                            else (pools s)(''pool_'' @ format_int ?p \<mapsto> True))"
    using run_call_pools[OF c] by (cases c) (simp_all add: pool_stmts_def)
  have seq': "seq s' = seq s @ call_stmts h c s" using c by (rule run_call_seq)
  show ?thesis
  proof (cases "pool_stmts ?p s = []")
    case True
    then show ?thesis using inv pools' seq' call_stmts_no_pool[of c s _ h]
      by (simp add: pools_logged_once_def)
  next
    case False
    then obtain name executable opts where cc: "c = CallCmd name executable opts"
      by (cases c) (simp_all add: pool_stmts_def)
    from False cc have fresh: "pools s (''pool_'' @ format_int (o_pool opts)) = None"
      and ps: "pool_stmts (o_pool opts) s = [NPool (''pool_'' @ format_int (o_pool opts)) (o_pool opts)]"
      by (auto simp: pool_stmts_def split: if_splits)
    have old: "filter (is_pool_def (''pool_'' @ format_int (o_pool opts))) (seq s) = []"
      using inv fresh by (rule logged_fresh)
    show ?thesis
      unfolding pools_logged_once_def
    proof
      fix n
      show "length (filter (is_pool_def n) (seq s')) = (if pools s' n = None then 0 else 1)"
      proof (cases "n = ''pool_'' @ format_int (o_pool opts)")
        case True
        then show ?thesis using old pools' seq' cc ps False by simp
      next
        case False
        then have "pools s' n = pools s n" using pools' cc by simp
        moreover have "filter (is_pool_def n) (seq s') = filter (is_pool_def n) (seq s)"
          using seq' cc ps False by simp
        ultimately show ?thesis using inv by (simp add: pools_logged_once_def)
      qed
    qed
  qed
qed

lemma run_logged:
  "pools_logged_once s \<Longrightarrow> run h cs s = Inr s' \<Longrightarrow> pools_logged_once s'"
proof (induction cs arbitrary: s)
  case Nil
  then show ?case by simp
next
  case (Cons c cs)
  from Cons.prems(2) obtain s1 where c: "run_call h c s = Inr s1" and r: "run h cs s1 = Inr s'"
    by (auto split: sum.splits)
  show ?case using Cons.IH[OF run_call_logged[OF Cons.prems(1) c] r] .
qed

lemma run_call_pools_mono:
  "run_call h c s = Inr s' \<Longrightarrow> pools s n \<noteq> None \<Longrightarrow> pools s' n \<noteq> None"
  using run_call_pools[of h c s s'] by (cases c) (auto split: if_splits)

lemma run_pools_mono:
  "run h cs s = Inr s' \<Longrightarrow> pools s n \<noteq> None \<Longrightarrow> pools s' n \<noteq> None"
proof (induction cs arbitrary: s)
  case Nil
  then show ?case by simp
next
  case (Cons c cs)
  from Cons.prems(1) obtain s1 where c: "run_call h c s = Inr s1" and r: "run h cs s1 = Inr s'"
    by (auto split: sum.splits)
  show ?case using Cons.IH[OF r run_call_pools_mono[OF c Cons.prems(2)]] .
qed

lemma init_logged: "Ninju_init h bf bd nc = Inr s \<Longrightarrow> pools_logged_once s"
  using Ninju_init_state(2,5)[of h bf bd nc s] by (simp add: pools_logged_once_def)

lemma setup_pool_logged:
  assumes "pools_logged_once s" and "1 \<le> d"
  shows "pools_logged_once (snd (projr (setup_pool (PInt d) s)))"
proof (cases "pools s (pool_name_of d) = None")
  case True
  have "filter (is_pool_def (pool_name_of d)) (seq s) = []"
    using assms(1) True by (rule logged_fresh)
  then show ?thesis using assms True
    by (simp add: setup_pool_int pools_logged_once_def)
next
  case False
  then show ?thesis using assms by (auto simp: setup_pool_int)
qed

text \<open>C8: in a session reached by any calls, a request for the integer depth
  \<^verbatim>\<open>d \<ge> 1\<close> returns the name \<^verbatim>\<open>pool_<d>\<close> and appends the pool definition of
  \<^verbatim>\<open>d\<close> only when the depth was not registered before; after any further calls a
  request for \<^verbatim>\<open>d\<close> returns the same name and changes nothing, and the log holds
  exactly one pool definition named \<^verbatim>\<open>pool_<d>\<close>.\<close>

theorem pool_registration_idempotent:
  assumes "Ninju_init h bf bd nc = Inr s0" and "run h cs1 s0 = Inr s" and "1 \<le> d"
    and "setup_pool (PInt d) s = Inr (r, s1)" and "run h cs2 s1 = Inr s2"
  shows "r = Some (pool_name_of d)
    \<and> s1 = (if pools s (pool_name_of d) = None
            then s\<lparr>seq := seq s @ [NPool (pool_name_of d) (PInt d)],
                   pools := (pools s)(pool_name_of d \<mapsto> True)\<rparr>
            else s)
    \<and> setup_pool (PInt d) s2 = Inr (Some (pool_name_of d), s2)
    \<and> length (filter (is_pool_def (pool_name_of d)) (seq s2)) = 1"
proof -
  have inv: "pools_logged_once s" using init_logged[OF assms(1)] assms(2) by (rule run_logged)
  have sp: "setup_pool (PInt d) s = Inr (Some (pool_name_of d),
          if pools s (pool_name_of d) = None
          then s\<lparr>seq := seq s @ [NPool (pool_name_of d) (PInt d)],
                 pools := (pools s)(pool_name_of d \<mapsto> True)\<rparr>
          else s)"
    using assms(3) by (rule setup_pool_int)
  with assms(4) have r: "r = Some (pool_name_of d)"
    and s1: "s1 = (if pools s (pool_name_of d) = None
            then s\<lparr>seq := seq s @ [NPool (pool_name_of d) (PInt d)],
                   pools := (pools s)(pool_name_of d \<mapsto> True)\<rparr>
            else s)"
    by simp_all
  have reg1: "pools s1 (pool_name_of d) \<noteq> None" using s1 by auto
  have inv1: "pools_logged_once s1"
    using setup_pool_logged[OF inv assms(3)] assms(4) by simp
  have reg2: "pools s2 (pool_name_of d) \<noteq> None" using assms(5) reg1 by (rule run_pools_mono)
  have inv2: "pools_logged_once s2" using inv1 assms(5) by (rule run_logged)
  have "setup_pool (PInt d) s2 = Inr (Some (pool_name_of d), s2)"
    using reg2 assms(3) by (auto simp: setup_pool_int)
  moreover have "length (filter (is_pool_def (pool_name_of d)) (seq s2)) = 1"
    using inv2 reg2 by (rule logged_once)
  ultimately show ?thesis using r s1 by blast
qed

lemma str_int_2: "str_int 2 = ''2''" and str_int_4: "str_int 4 = ''4''"
  by (simp_all add: str_int_def str_nat.simps digit_char_def)

lemma pool_session1_setup:
  "setup_pool (PInt 2) example_session = Inr (Some ''pool_2'', pool_session1)"
  by (simp add: setup_pool_def pool_session1_def example_session_def str_int_2 Let_def)

lemma pool_session2_run: "run example_host pool_calls pool_session1 = Inr pool_session2"
  by (simp add: pool_session2_def pool_calls_def pool_session1_def example_session_def
      cmd_def setup_pool_def cmd_defaults_def str_int_2 str_int_4 Let_def)

theorem pool_registration_idempotent_witness:
  "Ninju_init example_host ''build.ninja'' ''.builddir'' False = Inr example_session
   \<and> run example_host [] example_session = Inr example_session
   \<and> setup_pool (PInt 2) example_session = Inr (Some ''pool_2'', pool_session1)
   \<and> run example_host pool_calls pool_session1 = Inr pool_session2
   \<and> setup_pool (PInt 2) pool_session2 = Inr (Some ''pool_2'', pool_session2)
   \<and> length (filter (is_pool_def ''pool_2'') (seq pool_session2)) = 1"
proof -
  have r0: "run example_host [] example_session = Inr example_session" by simp
  have "setup_pool (PInt 2) pool_session2 = Inr (Some (pool_name_of 2), pool_session2)
    \<and> length (filter (is_pool_def (pool_name_of 2)) (seq pool_session2)) = 1"
    using pool_registration_idempotent[OF example_session_init r0 _ pool_session1_setup
        pool_session2_run, of ]
    by simp
  then show ?thesis
    using example_session_init r0 pool_session1_setup pool_session2_run
    by (simp add: pool_name_of_def str_int_2)
qed

subsection \<open>Number of statements per call\<close>

lemma call_stmts_length:
  "run_call h c s = Inr s' \<Longrightarrow> length (call_stmts h c s) = appended_count c s"
  by (cases c)
     (auto simp: pool_stmts_def Files_getattr_def Target_getattr_def cmd_def setup_pool_def
        split: option.splits if_splits sum.splits)

text \<open>C2 (as amended): every successful configuration call appends to the end of the
  log.  \<^verbatim>\<open>var\<close>, \<^verbatim>\<open>exec_cmd\<close>, \<^verbatim>\<open>phony\<close>, \<^verbatim>\<open>default\<close>, a build command and
  an exec command append exactly one statement; \<^verbatim>\<open>cmd\<close> appends one statement, or
  two (the pool definition, then the rule) when its pool is an integer depth not
  registered before; \<^verbatim>\<open>dir\<close> appends one variable when it is given a variable name
  and nothing otherwise; generating a name appends nothing.\<close>

theorem call_appends:
  assumes "run_call h c s = Inr s'"
  shows "seq s' = seq s @ call_stmts h c s
    \<and> length (seq s') = length (seq s) + appended_count c s
    \<and> appended_count c s \<le> 2"
proof -
  have a: "seq s' = seq s @ call_stmts h c s" using assms by (rule run_call_seq)
  have b: "length (call_stmts h c s) = appended_count c s" using assms by (rule call_stmts_length)
  have "appended_count c s \<le> 2" by (cases c) auto
  then show ?thesis using a b by simp
qed

lemma pool_cmd_example:
  "run_call example_host (CallCmd ''link'' ''cc'' (cmd_defaults\<lparr>o_pool := PInt 2\<rparr>)) example_session
     = Inr (example_session\<lparr>seq := seq example_session @
          [NPool ''pool_2'' (PInt 2),
           BuildRule (NBuildRule_init example_host ''link'' ''cc''
              (cmd_defaults\<lparr>o_pool := PInt 2\<rparr>) (Some ''pool_2''))],
          pools := [''pool_2'' \<mapsto> True],
          cmds := (cmds example_session)(''link'' \<mapsto> NBuildRule_init example_host ''link'' ''cc''
              (cmd_defaults\<lparr>o_pool := PInt 2\<rparr>) (Some ''pool_2''))\<rparr>)"
  by (simp add: cmd_def setup_pool_def cmd_defaults_def str_int_2 Let_def example_session_def)

theorem call_appends_witness:
  "length (seq (example_session\<lparr>seq := seq example_session @
          [NPool ''pool_2'' (PInt 2),
           BuildRule (NBuildRule_init example_host ''link'' ''cc''
              (cmd_defaults\<lparr>o_pool := PInt 2\<rparr>) (Some ''pool_2''))],
          pools := [''pool_2'' \<mapsto> True],
          cmds := (cmds example_session)(''link'' \<mapsto> NBuildRule_init example_host ''link'' ''cc''
              (cmd_defaults\<lparr>o_pool := PInt 2\<rparr>) (Some ''pool_2''))\<rparr>))
     = length (seq example_session)
       + appended_count (CallCmd ''link'' ''cc'' (cmd_defaults\<lparr>o_pool := PInt 2\<rparr>)) example_session
   \<and> appended_count (CallCmd ''link'' ''cc'' (cmd_defaults\<lparr>o_pool := PInt 2\<rparr>)) example_session = 2
   \<and> appended_count (CallVar ''x'' (PStr ''y'')) example_session = 1"
proof -
  have "appended_count (CallCmd ''link'' ''cc'' (cmd_defaults\<lparr>o_pool := PInt 2\<rparr>)) example_session = 2"
    by (simp add: example_session_def cmd_defaults_def)
  then show ?thesis using call_appends[OF pool_cmd_example] by simp
qed

text \<open>The claim C2 as stated fails for \<^verbatim>\<open>cmd\<close> with a new pool depth: the call
  appends two statements.\<close>

theorem cmd_new_pool_counterexample:
  "map_sum id seq (cmd example_host ''link'' ''cc'' (cmd_defaults\<lparr>o_pool := PInt 2\<rparr>) example_session)
     = Inr (seq example_session @
          [NPool ''pool_2'' (PInt 2),
           BuildRule (NBuildRule_init example_host ''link'' ''cc''
              (cmd_defaults\<lparr>o_pool := PInt 2\<rparr>) (Some ''pool_2''))])"
  by (simp add: cmd_def setup_pool_def cmd_defaults_def str_int_2 Let_def example_session_def)

subsection \<open>Generation\<close>

lemma generate_loop_eq:
  "generate_loop str newline tasks w =
     (w @ concat (map (render str newline) (takeWhile (writable str) tasks)),
      first_error str tasks)"
proof (induction tasks arbitrary: w)
  case Nil
  show ?case by (simp add: first_error_def)
next
  case (Cons t ts)
  show ?case
  proof (cases "stmt_write str t")
    case (Inl e)
    then show ?thesis by (simp add: writable_def first_error_def)
  next
    case (Inr c)
    then show ?thesis
      by (simp add: Cons.IH writable_def first_error_def render_def)
  qed
qed

lemma stmt_write_statement: "stmt_write str t = Inr c \<Longrightarrow> is_statement c"
  by (cases t)
     (auto simp: NBuild_write_def Let_def split: if_splits sum.splits)

lemma filter_render:
  "writable str t \<Longrightarrow> map Inr (filter is_statement (render str newline t)) = [stmt_write str t]"
  by (cases "stmt_write str t") (auto simp: writable_def render_def dest: stmt_write_statement)

lemma filter_render_all:
  "list_all (writable str) ts \<Longrightarrow>
     map Inr (filter is_statement (concat (map (render str newline) ts))) = map (stmt_write str) ts"
proof (induction ts)
  case Nil
  show ?case by simp
next
  case (Cons t ts)
  then have w: "writable str t" and ws: "list_all (writable str) ts" by simp_all
  have "map Inr (filter is_statement (render str newline t)) = [stmt_write str t]"
    using w by (rule filter_render)
  then show ?case using Cons.IH[OF ws] by simp
qed

lemma first_error_None: "list_all (writable str) ts \<Longrightarrow> first_error str ts = None"
proof -
  assume "list_all (writable str) ts"
  then have "dropWhile (writable str) ts = []" by (simp add: list_all_iff)
  then show ?thesis unfolding first_error_def by (simp only: list.case)
qed

lemma takeWhile_all: "list_all P ts \<Longrightarrow> takeWhile P ts = ts"
  by (simp add: takeWhile_eq_all_conv list_all_iff)

lemma empty_outputs_error:
  "b_outputs b = [] \<Longrightarrow> stmt_write str (Build b) = Inl GeneratorError"
  by (simp add: NBuild_write_def)

lemma first_error_snoc:
  "list_all (writable str) ts \<Longrightarrow> stmt_write str t = Inl e \<Longrightarrow>
     first_error str (ts @ [t]) = Some e"
  by (simp add: first_error_def dropWhile_append1 dropWhile_append2 list_all_iff writable_def
      dropWhile_append)

lemma first_error_some:
  "stmt_write str t = Inl e \<Longrightarrow> first_error str (ts @ [t]) \<noteq> None"
proof (induction ts)
  case Nil
  then show ?case by (simp add: first_error_def writable_def)
next
  case (Cons a ts)
  then show ?case
    by (cases "stmt_write str a") (auto simp: first_error_def writable_def)
qed

lemma str_int_1: "str_int 1 = ''1''"
  by (simp add: str_int_def str_nat.simps digit_char_def)

lemma order_session_run: "run example_host order_calls example_session = Inr order_session"
  by (simp add: order_calls_def order_session_def compile_rule_def example_session_def
      cmd_def setup_pool_def cmd_defaults_def Files_getattr_def build_fn_def
      normalize_outputs_def gen_name_def str_int_1 default_def Files_init_def
      NBuildRule_init_def resolve_def example_host_def Let_def)

lemma order_session_writable: "list_all (writable the_str) (seq order_session)"
  by (simp add: order_session_def example_session_def writable_def NBuild_write_def
      as_string_list_def Let_def)

text \<open>C1 (as amended): after any sequence of successful configuration calls the log is
  the log before followed by the statements of the calls in call order; generation hands
  the statements to the writer in exactly the order of the log, without reordering or
  merging, up to the first statement whose \<^verbatim>\<open>write\<close> raises, where it stops with
  that exception; when every statement is writable, the writer calls for statements are,
  in order, exactly the \<^verbatim>\<open>write\<close> of each log entry, and nothing is dropped.\<close>

theorem serialization_order:
  assumes "run h calls s0 = Inr s"
  shows "seq s = seq s0 @ run_stmts h calls s0
    \<and> generate str newline s =
        ([WComment header_comment, WNewline]
           @ concat (map (render str newline) (takeWhile (writable str) (seq s))),
         first_error str (seq s))
    \<and> (list_all (writable str) (seq s) \<longrightarrow>
          snd (generate str newline s) = None
          \<and> map Inr (filter is_statement (fst (generate str newline s)))
              = map (stmt_write str) (seq s))"
proof -
  have a: "seq s = seq s0 @ run_stmts h calls s0" using assms by (rule run_seq)
  have b: "generate str newline s =
        ([WComment header_comment, WNewline]
           @ concat (map (render str newline) (takeWhile (writable str) (seq s))),
         first_error str (seq s))"
    by (simp add: generate_def generate_loop_eq)
  have c: "list_all (writable str) (seq s) \<longrightarrow>
          snd (generate str newline s) = None
          \<and> map Inr (filter is_statement (fst (generate str newline s)))
              = map (stmt_write str) (seq s)"
  proof
    assume w: "list_all (writable str) (seq s)"
    show "snd (generate str newline s) = None
          \<and> map Inr (filter is_statement (fst (generate str newline s)))
              = map (stmt_write str) (seq s)"
      unfolding b using first_error_None[OF w] filter_render_all[OF w, of newline]
      by (simp add: takeWhile_all[OF w])
  qed
  show ?thesis using a b c by blast
qed

theorem serialization_order_witness:
  "run example_host order_calls example_session = Inr order_session
   \<and> list_all (writable the_str) (seq order_session)
   \<and> snd (generate the_str True order_session) = None
   \<and> map Inr (filter is_statement (fst (generate the_str True order_session)))
       = map (stmt_write the_str) (seq order_session)
   \<and> seq order_session = seq example_session @ run_stmts example_host order_calls example_session"
  using serialization_order[OF order_session_run, of the_str True]
    order_session_run order_session_writable
  by blast

subsection \<open>Build commands\<close>

lemma order_session_emitted:
  "filter is_statement (fst (generate the_str True order_session)) =
     [WVariable ''ninja_required_version'' (PStr ''1.7'') 0,
      WVariable ''root'' (PStr ''.'') 0,
      WVariable ''builddir'' (PStr ''${root}/.builddir'') 0,
      WRule ''configure'' ''/proj/configure.py'' (Some ''Regenerate ninja build file'') None True
        None False None None None,
      WBuild (PList [PStr ''${root}/build.ninja'']) ''configure'' (Some [])
        (Some [''/proj/configure.py'', ''/lib/ninju.py'', ''/lib/ninja_syntax.py'']) None PNone None,
      WRule ''compile'' ''/usr/bin/cc'' None None False None False None None None,
      WBuild (PList [PStr ''${builddir}/.ninju_1.tmp'']) ''compile'' (Some [''a.c''])
        (Some [''/usr/bin/cc'']) None PNone None,
      WDefault [''all'']]"
  by (simp add: generate_def order_session_def example_session_def configure_rule_def
      compile_rule_def NBuildRule_init_def cmd_defaults_def resolve_def example_host_def
      NBuild_write_def as_string_list_def rule_command_def Let_def)

lemma is_token_tokens: "is_token v \<Longrightarrow> tokens_of v = [v]"
  by (cases v) simp_all

lemma tokens_concat: "list_all is_token outs \<Longrightarrow> concat (map tokens_of outs) = outs"
  by (induction outs) (simp_all add: is_token_tokens)

lemma Files_init_concat: "Files_init args = PFiles (concat (map tokens_of args))"
  by (simp add: Files_init_def Files_loop_concat)

lemma run_call_cmds:
  assumes "run_call h c s = Inr s'"
  shows "cmds s' = (case c of
           CallCmd name executable opts \<Rightarrow>
             (cmds s)(name \<mapsto> NBuildRule_init h name executable opts (pool_ref (o_pool opts)))
         | _ \<Rightarrow> cmds s)"
proof (cases c)
  case (CallCmd name executable opts)
  from assms CallCmd obtain r s1 where sp: "setup_pool (o_pool opts) s = Inr (r, s1)"
    and s': "s' = s1\<lparr>seq := seq s1 @ [BuildRule (NBuildRule_init h name executable opts r)],
                      cmds := (cmds s1)(name \<mapsto> NBuildRule_init h name executable opts r)\<rparr>"
    by (auto simp: cmd_def Let_def split: sum.splits)
  show ?thesis using setup_pool_Inr(1,4)[OF sp] CallCmd by (simp add: s')
next
  case (CallDir args v)
  with assms show ?thesis by (auto simp: dir_def var_def Let_def split: option.splits)
next
  case (CallFiles p name outputs implicit order_only variables implicit_outputs)
  with assms show ?thesis
    by (cases "cmds s name")
       (auto simp: Files_getattr_def build_fn_def Let_def case_prod_beta normalize_frame)
next
  case (CallTarget t name inputs variables)
  with assms show ?thesis
    by (cases "exec_cmds s name")
       (auto simp: Target_getattr_def exec_fn_def Let_def case_prod_beta normalize_frame
          split: if_splits)
qed (use assms in \<open>auto simp: var_def exec_cmd_def phony_def default_def gen_name_def Let_def\<close>)

lemma run_call_resolved:
  assumes "rules_resolved h s" and "run_call h c s = Inr s'"
  shows "rules_resolved h s'"
  using assms(1) run_call_cmds[OF assms(2)]
  by (cases c) (auto simp: rules_resolved_def NBuildRule_init_def)

lemma run_resolved:
  "rules_resolved h s \<Longrightarrow> run h cs s = Inr s' \<Longrightarrow> rules_resolved h s'"
proof (induction cs arbitrary: s)
  case Nil
  then show ?case by simp
next
  case (Cons c cs)
  from Cons.prems(2) obtain s1 where c: "run_call h c s = Inr s1" and r: "run h cs s1 = Inr s'"
    by (auto split: sum.splits)
  show ?case using Cons.IH[OF run_call_resolved[OF Cons.prems(1) c] r] .
qed

lemma init_resolved: "Ninju_init h bf bd nc = Inr s \<Longrightarrow> rules_resolved h s"
  using Ninju_init_state(4)[of h bf bd nc s]
  by (auto simp: rules_resolved_def bootstrap_rule_def NBuildRule_init_def split: if_splits)

lemma Files_getattr_eq:
  "cmds s name = Some r \<Longrightarrow>
   Files_getattr p name outputs implicit order_only variables implicit_outputs s =
     Inr (PFiles (concat (map tokens_of (fst (normalize_outputs outputs ''tmp'' s)))),
          (snd (normalize_outputs outputs ''tmp'' s))\<lparr>seq := seq s @
            [Build \<lparr>b_outputs = fst (normalize_outputs outputs ''tmp'' s), b_rule = br_name r,
                    b_inputs = PList p,
                    b_implicit = PFiles (PStr (br_executable_path r) # tokens_of implicit),
                    b_order_only = order_only, b_variables = variables,
                    b_implicit_outputs = implicit_outputs\<rparr>]\<rparr>)"
  by (simp add: Files_getattr_def build_fn_def Let_def case_prod_beta normalize_frame
      Files_init_concat)

text \<open>C3 (as amended): in a session reached from a new one by any calls, a registered
  build rule is stored under its name with its resolved executable path; its build
  command never fails, appends exactly one build edge that names the rule, has the
  normalized outputs, and has the resolved executable path in front of the flattened
  \<^verbatim>\<open>implicit\<close> argument as implicit inputs; it returns the file reference that
  flattens the normalized outputs, which equals them when every output is a plain token;
  when no name has been issued yet and \<^verbatim>\<open>outputs\<close> is omitted, the single output
  is the first name of the name generator.\<close>

theorem build_command_edge:
  assumes "Ninju_init h bf bd nc = Inr s0" and "run h calls s0 = Inr s"
    and "cmds s name = Some r"
  shows "br_name r = name \<and> br_executable_path r = resolve h (br_executable r)
    \<and> Files_getattr p name outputs implicit order_only variables implicit_outputs s =
        Inr (PFiles (concat (map tokens_of (fst (normalize_outputs outputs ''tmp'' s)))),
             (snd (normalize_outputs outputs ''tmp'' s))\<lparr>seq := seq s @
               [Build \<lparr>b_outputs = fst (normalize_outputs outputs ''tmp'' s), b_rule = name,
                       b_inputs = PList p,
                       b_implicit = PFiles (PStr (resolve h (br_executable r)) # tokens_of implicit),
                       b_order_only = order_only, b_variables = variables,
                       b_implicit_outputs = implicit_outputs\<rparr>]\<rparr>)
    \<and> (list_all is_token (fst (normalize_outputs outputs ''tmp'' s)) \<longrightarrow>
          concat (map tokens_of (fst (normalize_outputs outputs ''tmp'' s)))
            = fst (normalize_outputs outputs ''tmp'' s))
    \<and> (name_count s = 0 \<and> \<not> truthy outputs \<longrightarrow>
          fst (normalize_outputs outputs ''tmp'' s) = [PStr (ninju_name 1 ''tmp'')]
          \<and> fst (gen_name ''tmp'' s) = ninju_name 1 ''tmp'')"
proof -
  have "rules_resolved h s" using init_resolved[OF assms(1)] assms(2) by (rule run_resolved)
  then have r: "br_name r = name" "br_executable_path r = resolve h (br_executable r)"
    using assms(3) by (auto simp: rules_resolved_def)
  have g: "Files_getattr p name outputs implicit order_only variables implicit_outputs s =
        Inr (PFiles (concat (map tokens_of (fst (normalize_outputs outputs ''tmp'' s)))),
             (snd (normalize_outputs outputs ''tmp'' s))\<lparr>seq := seq s @
               [Build \<lparr>b_outputs = fst (normalize_outputs outputs ''tmp'' s), b_rule = name,
                       b_inputs = PList p,
                       b_implicit = PFiles (PStr (resolve h (br_executable r)) # tokens_of implicit),
                       b_order_only = order_only, b_variables = variables,
                       b_implicit_outputs = implicit_outputs\<rparr>]\<rparr>)"
    using Files_getattr_eq[OF assms(3)] r by simp
  have t: "list_all is_token (fst (normalize_outputs outputs ''tmp'' s)) \<longrightarrow>
          concat (map tokens_of (fst (normalize_outputs outputs ''tmp'' s)))
            = fst (normalize_outputs outputs ''tmp'' s)"
    using tokens_concat by blast
  have f: "name_count s = 0 \<and> \<not> truthy outputs \<longrightarrow>
          fst (normalize_outputs outputs ''tmp'' s) = [PStr (ninju_name 1 ''tmp'')]
          \<and> fst (gen_name ''tmp'' s) = ninju_name 1 ''tmp''"
    by (simp add: normalize_outputs_def gen_name_eq)
  show ?thesis using r g t f by blast
qed

lemma compile_run:
  "run example_host [CallCmd ''compile'' ''cc'' cmd_defaults] example_session =
     Inr (example_session\<lparr>seq := seq example_session @ [BuildRule compile_rule],
            cmds := (cmds example_session)(''compile'' \<mapsto> compile_rule)\<rparr>)"
  by (simp add: cmd_def setup_pool_def cmd_defaults_def compile_rule_def Let_def)

theorem build_command_edge_witness:
  "Files_getattr [PStr ''a.c''] ''compile'' PNone PNone PNone PNone PNone
      (example_session\<lparr>seq := seq example_session @ [BuildRule compile_rule],
            cmds := (cmds example_session)(''compile'' \<mapsto> compile_rule)\<rparr>)
     = Inr (PFiles [PStr ''${builddir}/.ninju_1.tmp''],
            example_session\<lparr>name_count := 1,
              seq := seq example_session @ [BuildRule compile_rule,
                Build \<lparr>b_outputs = [PStr ''${builddir}/.ninju_1.tmp''], b_rule = ''compile'',
                       b_inputs = PList [PStr ''a.c''],
                       b_implicit = PFiles [PStr ''/usr/bin/cc''],
                       b_order_only = PNone, b_variables = PNone,
                       b_implicit_outputs = PNone\<rparr>],
              cmds := (cmds example_session)(''compile'' \<mapsto> compile_rule)\<rparr>)"
proof -
  have c: "cmds (example_session\<lparr>seq := seq example_session @ [BuildRule compile_rule],
            cmds := (cmds example_session)(''compile'' \<mapsto> compile_rule)\<rparr>) ''compile''
          = Some compile_rule"
    by simp
  have n: "normalize_outputs PNone ''tmp''
      (example_session\<lparr>seq := seq example_session @ [BuildRule compile_rule],
            cmds := (cmds example_session)(''compile'' \<mapsto> compile_rule)\<rparr>)
     = ([PStr ''${builddir}/.ninju_1.tmp''],
        example_session\<lparr>seq := seq example_session @ [BuildRule compile_rule],
            cmds := (cmds example_session)(''compile'' \<mapsto> compile_rule), name_count := 1\<rparr>)"
    by (simp add: normalize_outputs_def gen_name_def example_session_def str_int_1 Let_def)
  have e: "resolve example_host (br_executable compile_rule) = ''/usr/bin/cc''"
    by (simp add: compile_rule_def NBuildRule_init_def resolve_def example_host_def)
  show ?thesis
    using build_command_edge[OF example_session_init compile_run c,
        of "[PStr ''a.c'']" PNone PNone PNone PNone PNone]
    by (simp add: n e)
qed

text \<open>The claim C3 as stated fails where flattening changes the outputs: the outputs
  \<^verbatim>\<open>[None]\<close> give an empty file reference, and the tuple \<^verbatim>\<open>("a", "b")\<close>, one
  normalized output, gives a file reference of two tokens.\<close>

theorem build_command_flatten_counterexample:
  "fst (build_fn configure_rule (PList []) (PList [PNone]) PNone PNone PNone PNone example_session)
     = PFiles []
   \<and> fst (normalize_outputs (PList [PNone]) ''tmp'' example_session) = [PNone]
   \<and> fst (build_fn configure_rule (PList []) (PTuple [PStr ''a'', PStr ''b'']) PNone PNone PNone PNone
          example_session)
     = PFiles [PStr ''a'', PStr ''b'']
   \<and> fst (normalize_outputs (PTuple [PStr ''a'', PStr ''b'']) ''tmp'' example_session)
     = [PTuple [PStr ''a'', PStr ''b'']]"
  by (simp add: build_fn_def normalize_outputs_def Files_init_def Let_def)

subsection \<open>Empty outputs and exec commands\<close>

lemma is_single_output_eq:
  "is_single_output t = (\<not> (is_collection t \<and> length (tokens_of t) \<noteq> 1))"
  by (cases t) (simp_all add: is_single_output_def)

lemma normalize_empty_files: "normalize_outputs (PFiles []) ext s = ([], s)"
  by (simp add: normalize_outputs_def)

lemma normalize_falsy:
  "\<not> truthy t \<Longrightarrow> normalize_outputs t ext s =
     ([PStr (ninju_name (name_count s + 1) ext)], s\<lparr>name_count := name_count s + 1\<rparr>)"
  by (simp add: normalize_outputs_def gen_name_eq)

text \<open>C5 (as amended): a build command called with an empty file reference as
  \<^verbatim>\<open>outputs\<close> raises nothing: it appends a build edge without outputs and returns
  an empty file reference.  Generation of that session fails; when the statements before
  the edge are writable, it fails with \<^verbatim>\<open>GeneratorError\<close>, raised by the
  \<^verbatim>\<open>write\<close> of the edge.\<close>

theorem empty_outputs_fail_at_generation:
  assumes "cmds s name = Some r"
  shows "Files_getattr p name (PFiles []) implicit order_only variables implicit_outputs s =
       Inr (PFiles [],
            s\<lparr>seq := seq s @
              [Build \<lparr>b_outputs = [], b_rule = br_name r, b_inputs = PList p,
                      b_implicit = PFiles (PStr (br_executable_path r) # tokens_of implicit),
                      b_order_only = order_only, b_variables = variables,
                      b_implicit_outputs = implicit_outputs\<rparr>]\<rparr>)
    \<and> snd (generate str newline
         (s\<lparr>seq := seq s @
              [Build \<lparr>b_outputs = [], b_rule = br_name r, b_inputs = PList p,
                      b_implicit = PFiles (PStr (br_executable_path r) # tokens_of implicit),
                      b_order_only = order_only, b_variables = variables,
                      b_implicit_outputs = implicit_outputs\<rparr>]\<rparr>)) \<noteq> None
    \<and> (list_all (writable str) (seq s) \<longrightarrow>
         snd (generate str newline
           (s\<lparr>seq := seq s @
              [Build \<lparr>b_outputs = [], b_rule = br_name r, b_inputs = PList p,
                      b_implicit = PFiles (PStr (br_executable_path r) # tokens_of implicit),
                      b_order_only = order_only, b_variables = variables,
                      b_implicit_outputs = implicit_outputs\<rparr>]\<rparr>)) = Some GeneratorError)"
proof -
  let ?b = "\<lparr>b_outputs = [], b_rule = br_name r, b_inputs = PList p,
              b_implicit = PFiles (PStr (br_executable_path r) # tokens_of implicit),
              b_order_only = order_only, b_variables = variables,
              b_implicit_outputs = implicit_outputs\<rparr>"
  have w: "stmt_write str (Build ?b) = Inl GeneratorError" by (rule empty_outputs_error) simp
  have a: "Files_getattr p name (PFiles []) implicit order_only variables implicit_outputs s =
       Inr (PFiles [], s\<lparr>seq := seq s @ [Build ?b]\<rparr>)"
    using Files_getattr_eq[OF assms, of p "PFiles []"] by (simp add: normalize_empty_files)
  have b: "snd (generate str newline (s\<lparr>seq := seq s @ [Build ?b]\<rparr>)) \<noteq> None"
    using first_error_some[OF w] by (simp add: generate_def generate_loop_eq)
  have c: "list_all (writable str) (seq s) \<longrightarrow>
      snd (generate str newline (s\<lparr>seq := seq s @ [Build ?b]\<rparr>)) = Some GeneratorError"
    using first_error_snoc[OF _ w] by (simp add: generate_def generate_loop_eq)
  show ?thesis using a b c by blast
qed

lemma example_session_writable: "list_all (writable the_str) (seq example_session)"
  by (simp add: example_session_def writable_def NBuild_write_def as_string_list_def Let_def)

theorem empty_outputs_fail_at_generation_witness:
  "cmds example_session ''configure'' = Some configure_rule
   \<and> list_all (writable the_str) (seq example_session)
   \<and> snd (generate the_str True
         (example_session\<lparr>seq := seq example_session @
              [Build \<lparr>b_outputs = [], b_rule = ''configure'', b_inputs = PList [PStr ''a.c''],
                      b_implicit = PFiles [PStr ''/proj/configure.py''],
                      b_order_only = PNone, b_variables = PNone,
                      b_implicit_outputs = PNone\<rparr>]\<rparr>)) = Some GeneratorError"
proof -
  have c: "cmds example_session ''configure'' = Some configure_rule"
    by (simp add: example_session_def)
  show ?thesis
    using empty_outputs_fail_at_generation[OF c, where str = the_str and newline = True
        and p = "[PStr ''a.c'']" and implicit = PNone and order_only = PNone
        and variables = PNone and implicit_outputs = PNone]
      example_session_writable c
    by (simp add: configure_rule_def)
qed

text \<open>The claim C5 as stated fails: the call with an empty file reference as outputs
  returns normally.\<close>

theorem empty_outputs_counterexample:
  "Files_getattr [PStr ''a.c''] ''configure'' (PFiles []) PNone PNone PNone PNone example_session
     = Inr (PFiles [],
            example_session\<lparr>seq := seq example_session @
              [Build \<lparr>b_outputs = [], b_rule = ''configure'', b_inputs = PList [PStr ''a.c''],
                      b_implicit = PFiles [PStr ''/proj/configure.py''],
                      b_order_only = PNone, b_variables = PNone,
                      b_implicit_outputs = PNone\<rparr>]\<rparr>)"
  by (simp add: Files_getattr_def build_fn_def normalize_outputs_def Files_init_def Let_def
      example_session_def configure_rule_def)

text \<open>C4 (as amended): an exec command raises \<^verbatim>\<open>ConfigurationError\<close> exactly when
  its target is a file reference, list or tuple whose number of elements is not one;
  otherwise it appends one build edge whose outputs are the normalized target and
  returns the file reference that flattens the target.  For a non-empty name, given as a
  string, a one-element list or a one-token file reference, the edge has that single
  output and the result is the file reference with that single token.\<close>

theorem exec_command_single_target:
  "(exec_fn r t inputs variables s = Inl ConfigurationError)
      = (is_collection t \<and> length (tokens_of t) \<noteq> 1)
   \<and> (\<not> (is_collection t \<and> length (tokens_of t) \<noteq> 1) \<longrightarrow>
        exec_fn r t inputs variables s =
          Inr (PFiles (tokens_of t),
               (snd (normalize_outputs t ''tmp'' s))\<lparr>seq := seq s @
                 [Build \<lparr>b_outputs = fst (normalize_outputs t ''tmp'' s), b_rule = er_name r,
                         b_inputs = inputs, b_implicit = PNone, b_order_only = PNone,
                         b_variables = variables, b_implicit_outputs = PNone\<rparr>]\<rparr>))
   \<and> (n \<noteq> [] \<longrightarrow>
        exec_fn r (PStr n) inputs variables s =
          Inr (PFiles [PStr n],
               s\<lparr>seq := seq s @
                 [Build \<lparr>b_outputs = [PStr n], b_rule = er_name r,
                         b_inputs = inputs, b_implicit = PNone, b_order_only = PNone,
                         b_variables = variables, b_implicit_outputs = PNone\<rparr>]\<rparr>)
        \<and> exec_fn r (PList [PStr n]) inputs variables s =
          Inr (PFiles [PStr n],
               s\<lparr>seq := seq s @
                 [Build \<lparr>b_outputs = [PStr n], b_rule = er_name r,
                         b_inputs = inputs, b_implicit = PNone, b_order_only = PNone,
                         b_variables = variables, b_implicit_outputs = PNone\<rparr>]\<rparr>)
        \<and> exec_fn r (PFiles [PStr n]) inputs variables s =
          Inr (PFiles [PStr n],
               s\<lparr>seq := seq s @
                 [Build \<lparr>b_outputs = [PStr n], b_rule = er_name r,
                         b_inputs = inputs, b_implicit = PNone, b_order_only = PNone,
                         b_variables = variables, b_implicit_outputs = PNone\<rparr>]\<rparr>))"
proof -
  have a: "(exec_fn r t inputs variables s = Inl ConfigurationError)
      = (is_collection t \<and> length (tokens_of t) \<noteq> 1)"
    by (simp add: exec_fn_def is_single_output_eq case_prod_beta Let_def)
  have b: "\<not> (is_collection t \<and> length (tokens_of t) \<noteq> 1) \<longrightarrow>
        exec_fn r t inputs variables s =
          Inr (PFiles (tokens_of t),
               (snd (normalize_outputs t ''tmp'' s))\<lparr>seq := seq s @
                 [Build \<lparr>b_outputs = fst (normalize_outputs t ''tmp'' s), b_rule = er_name r,
                         b_inputs = inputs, b_implicit = PNone, b_order_only = PNone,
                         b_variables = variables, b_implicit_outputs = PNone\<rparr>]\<rparr>)"
    by (simp add: exec_fn_def is_single_output_eq case_prod_beta Let_def normalize_frame
        Files_init_concat)
  have c: "n \<noteq> [] \<longrightarrow>
        exec_fn r (PStr n) inputs variables s =
          Inr (PFiles [PStr n],
               s\<lparr>seq := seq s @
                 [Build \<lparr>b_outputs = [PStr n], b_rule = er_name r,
                         b_inputs = inputs, b_implicit = PNone, b_order_only = PNone,
                         b_variables = variables, b_implicit_outputs = PNone\<rparr>]\<rparr>)
        \<and> exec_fn r (PList [PStr n]) inputs variables s =
          Inr (PFiles [PStr n],
               s\<lparr>seq := seq s @
                 [Build \<lparr>b_outputs = [PStr n], b_rule = er_name r,
                         b_inputs = inputs, b_implicit = PNone, b_order_only = PNone,
                         b_variables = variables, b_implicit_outputs = PNone\<rparr>]\<rparr>)
        \<and> exec_fn r (PFiles [PStr n]) inputs variables s =
          Inr (PFiles [PStr n],
               s\<lparr>seq := seq s @
                 [Build \<lparr>b_outputs = [PStr n], b_rule = er_name r,
                         b_inputs = inputs, b_implicit = PNone, b_order_only = PNone,
                         b_variables = variables, b_implicit_outputs = PNone\<rparr>]\<rparr>)"
    by (simp add: exec_fn_def is_single_output_def normalize_outputs_def Files_init_def Let_def)
  show ?thesis using a b c by blast
qed

theorem exec_command_single_target_witness:
  "exec_fn example_exec_rule (PStr ''install'') PNone PNone example_session =
          Inr (PFiles [PStr ''install''],
               example_session\<lparr>seq := seq example_session @
                 [Build \<lparr>b_outputs = [PStr ''install''], b_rule = er_name example_exec_rule,
                         b_inputs = PNone, b_implicit = PNone, b_order_only = PNone,
                         b_variables = PNone, b_implicit_outputs = PNone\<rparr>]\<rparr>)
   \<and> exec_fn example_exec_rule (PList [PStr ''x'', PStr ''y'']) PNone PNone example_session
       = Inl ConfigurationError"
  using exec_command_single_target[of example_exec_rule "PList [PStr ''x'', PStr ''y'']" PNone PNone
      example_session "''install''"]
  by simp

text \<open>The claim C4 as stated fails: the result for the target \<^verbatim>\<open>"install"\<close> is a
  file reference, not a target reference; the target \<^verbatim>\<open>None\<close> flattens to no token
  and raises nothing; the target \<^verbatim>\<open>2\<close> succeeds with two outputs.\<close>

theorem exec_command_counterexample:
  "map_sum id fst (exec_fn example_exec_rule (PStr ''install'') PNone PNone example_session)
     = Inr (PFiles [PStr ''install''])
   \<and> PFiles [PStr ''install''] \<noteq> PTarget (PStr ''install'')
   \<and> Files_init [PNone] = PFiles []
   \<and> map_sum id fst (exec_fn example_exec_rule PNone PNone PNone example_session) = Inr (PFiles [])
   \<and> map_sum id fst (exec_fn example_exec_rule (PInt 2) PNone PNone example_session)
     = Inr (PFiles [PInt 2])
   \<and> fst (normalize_outputs (PInt 2) ''tmp'' example_session)
     = [PStr ''${builddir}/.ninju_1.tmp'', PStr ''${builddir}/.ninju_2.tmp'']"
  by (simp add: exec_fn_def is_single_output_def normalize_outputs_def Files_init_def Let_def
      gen_name_def example_session_def str_int_1 str_int_2 case_prod_beta numeral_2_eq_2)

text \<open>C10: an exec command whose target is a false value other than a list or tuple
  (\<^verbatim>\<open>None\<close>, \<^verbatim>\<open>False\<close>, \<^verbatim>\<open>0\<close>, the empty string) raises nothing: it appends
  one build edge whose single output is the next name of the name generator.\<close>

theorem exec_falsy_target_generates_name:
  assumes "\<not> truthy t" and "\<not> is_collection t"
  shows "exec_fn r t inputs variables s =
          Inr (PFiles (tokens_of t),
               s\<lparr>name_count := name_count s + 1,
                 seq := seq s @
                 [Build \<lparr>b_outputs = [PStr (fst (gen_name ''tmp'' s))], b_rule = er_name r,
                         b_inputs = inputs, b_implicit = PNone, b_order_only = PNone,
                         b_variables = variables, b_implicit_outputs = PNone\<rparr>]\<rparr>)
    \<and> fst (gen_name ''tmp'' s) = ninju_name (name_count s + 1) ''tmp''"
  using assms
  by (simp add: exec_fn_def is_single_output_eq normalize_falsy gen_name_eq Files_init_concat)

theorem exec_falsy_target_generates_name_witness:
  "exec_fn example_exec_rule PNone PNone PNone example_session =
          Inr (PFiles [],
               example_session\<lparr>name_count := 1,
                 seq := seq example_session @
                 [Build \<lparr>b_outputs = [PStr ''${builddir}/.ninju_1.tmp''], b_rule = ''deploy'',
                         b_inputs = PNone, b_implicit = PNone, b_order_only = PNone,
                         b_variables = PNone, b_implicit_outputs = PNone\<rparr>]\<rparr>)
   \<and> exec_fn example_exec_rule (PStr '''') PNone PNone example_session =
          Inr (PFiles [PStr ''''],
               example_session\<lparr>name_count := 1,
                 seq := seq example_session @
                 [Build \<lparr>b_outputs = [PStr ''${builddir}/.ninju_1.tmp''], b_rule = ''deploy'',
                         b_inputs = PNone, b_implicit = PNone, b_order_only = PNone,
                         b_variables = PNone, b_implicit_outputs = PNone\<rparr>]\<rparr>)"
proof -
  have g: "fst (gen_name ''tmp'' example_session) = ''${builddir}/.ninju_1.tmp''"
    by (simp add: gen_name_def example_session_def str_int_1 Let_def)
  have n: "name_count example_session = 0" by (simp add: example_session_def)
  have e: "er_name example_exec_rule = ''deploy''"
    by (simp add: example_exec_rule_def NExecRule_init_def)
  show ?thesis
    using exec_falsy_target_generates_name[of PNone example_exec_rule PNone PNone example_session]
      exec_falsy_target_generates_name[of "PStr ''''" example_exec_rule PNone PNone example_session]
    by (simp add: g n e)
qed

subsection \<open>Generation stops at a statement that cannot be written\<close>

lemma failing_session_run:
  "run example_host failing_calls example_session = Inr failing_session"
  by (simp add: failing_calls_def failing_session_def example_session_def configure_rule_def
      Files_getattr_def build_fn_def normalize_outputs_def Files_init_def var_def Let_def)

text \<open>The claim C1 as stated fails for a log that holds a statement whose
  \<^verbatim>\<open>write\<close> raises: both calls below succeed and the log has seven statements;
  generation raises \<^verbatim>\<open>GeneratorError\<close> at the sixth, and the writer has received
  the first five only.\<close>

theorem serialization_stops_counterexample:
  "run example_host failing_calls example_session = Inr failing_session
   \<and> length (seq failing_session) = 7
   \<and> snd (generate the_str True failing_session) = Some GeneratorError
   \<and> filter is_statement (fst (generate the_str True failing_session)) =
     [WVariable ''ninja_required_version'' (PStr ''1.7'') 0,
      WVariable ''root'' (PStr ''.'') 0,
      WVariable ''builddir'' (PStr ''${root}/.builddir'') 0,
      WRule ''configure'' ''/proj/configure.py'' (Some ''Regenerate ninja build file'') None True
        None False None None None,
      WBuild (PList [PStr ''${root}/build.ninja'']) ''configure'' (Some [])
        (Some [''/proj/configure.py'', ''/lib/ninju.py'', ''/lib/ninja_syntax.py'']) None PNone None]"
proof -
  have "length (seq failing_session) = 7"
    by (simp add: failing_session_def example_session_def)
  moreover have "snd (generate the_str True failing_session) = Some GeneratorError"
    by (simp add: generate_def failing_session_def example_session_def NBuild_write_def
        as_string_list_def Let_def)
  moreover have "filter is_statement (fst (generate the_str True failing_session)) =
     [WVariable ''ninja_required_version'' (PStr ''1.7'') 0,
      WVariable ''root'' (PStr ''.'') 0,
      WVariable ''builddir'' (PStr ''${root}/.builddir'') 0,
      WRule ''configure'' ''/proj/configure.py'' (Some ''Regenerate ninja build file'') None True
        None False None None None,
      WBuild (PList [PStr ''${root}/build.ninja'']) ''configure'' (Some [])
        (Some [''/proj/configure.py'', ''/lib/ninju.py'', ''/lib/ninja_syntax.py'']) None PNone None]"
    by (simp add: generate_def failing_session_def example_session_def configure_rule_def
        NBuild_write_def as_string_list_def rule_command_def Let_def)
  ultimately show ?thesis using failing_session_run by simp
qed

end
